theory Spec2Isabelle
  imports
    Main
    "HOL-Library.AList"
    "HOL-Library.List_Lexorder"
    "HOL-Library.Option_ord"
    "HOL-Library.Multiset"
begin

section \<open>Python values and string operations\<close>

text \<open>
  A Python \<open>str\<close> is modelled as the list of its Unicode code points, each an
  integer; \<open>ustr ''abc''\<close> is the string of the characters written between the quotes, and
  two strings compare as Python compares them, code point by code point. A value that
  may be Python's \<open>None\<close> is an option. A \<open>dict\<close> is an association list in insertion
  order with unique keys: \<open>d[k] = v\<close> is \<open>AList.update k v d\<close>, which keeps the position
  of a key that is already there and appends a new one.

  Three tables of the interpreter's Unicode database are written out, as of Unicode 14.0
  (CPython 3.11): the white space that \<open>str.strip()\<close> removes (\<open>py_isspace\<close>), the
  decimal digits that \<open>\d\<close> matches (\<open>unicode_decimal\<close>), and, of \<open>str.lower()\<close>, the
  part that the comparison with \<open>null\<close> can see (\<open>py_lower\<close>).
\<close>

type_synonym codepoint = int

type_synonym ustring = "codepoint list"

abbreviation ustr :: "string \<Rightarrow> ustring" where
  "ustr s \<equiv> map of_char s"

abbreviation cp :: "char \<Rightarrow> codepoint" where
  "cp c \<equiv> of_char c"

datatype py_error = OSError ustring | TypeError | FileNotFoundError

type_synonym py_value = "ustring option"

type_synonym metadata = "(ustring \<times> py_value) list"

definition py_isspace :: "codepoint \<Rightarrow> bool" where
  \<comment> \<open>\<open>chr(n).isspace()\<close>: U+0009 to U+000D, U+001C to U+0020, U+0085, U+00A0, U+1680,
      U+2000 to U+200A, U+2028, U+2029, U+202F, U+205F and U+3000\<close>
  "py_isspace n =
     ((9 \<le> n \<and> n \<le> 13) \<or> (28 \<le> n \<and> n \<le> 32) \<or> n = 133 \<or> n = 160 \<or> n = 5760
      \<or> (8192 \<le> n \<and> n \<le> 8202) \<or> n = 8232 \<or> n = 8233 \<or> n = 8239 \<or> n = 8287
      \<or> n = 12288)"

definition strip_chars :: "(codepoint \<Rightarrow> bool) \<Rightarrow> ustring \<Rightarrow> ustring" where
  "strip_chars P s = rev (dropWhile P (rev (dropWhile P s)))"

definition py_strip :: "ustring \<Rightarrow> ustring" where
  \<comment> \<open>\<open>s.strip()\<close>\<close>
  "py_strip = strip_chars py_isspace"

definition py_strip_char :: "codepoint \<Rightarrow> ustring \<Rightarrow> ustring" where
  \<comment> \<open>\<open>s.strip(c)\<close> for a one-character argument\<close>
  "py_strip_char c = strip_chars (\<lambda>x. x = c)"

definition py_lower_char :: "codepoint \<Rightarrow> codepoint" where
  \<comment> \<open>the lower-case form of the letters \<open>A\<close> to \<open>Z\<close> and of the capital letters of Latin-1\<close>
  "py_lower_char n =
     (if (65 \<le> n \<and> n \<le> 90) \<or> (192 \<le> n \<and> n \<le> 222 \<and> n \<noteq> 215) then n + 32 else n)"

definition py_lower :: "ustring \<Rightarrow> ustring" where
  \<comment> \<open>\<open>s.lower()\<close> on Basic Latin and Latin-1. Python lowers the letters of other scripts
      too; it maps no character other than \<open>N\<close>, \<open>U\<close>, \<open>L\<close> to \<open>n\<close>, \<open>u\<close>, \<open>l\<close>, none to
      \<open>~\<close> and none to the empty string, so \<open>s.lower() in ('null', '~', '')\<close>, its one use
      in the source, has the value computed here for every string.\<close>
  "py_lower s = map py_lower_char s"

definition py_startswith :: "ustring \<Rightarrow> ustring \<Rightarrow> bool" where
  \<comment> \<open>\<open>s.startswith(p)\<close>\<close>
  "py_startswith s p = (take (length p) s = p)"

definition py_endswith :: "ustring \<Rightarrow> ustring \<Rightarrow> bool" where
  \<comment> \<open>\<open>s.endswith(p)\<close>\<close>
  "py_endswith s p = (length p \<le> length s \<and> drop (length s - length p) s = p)"

fun py_partition :: "ustring \<Rightarrow> ustring \<Rightarrow> (ustring \<times> ustring) option" where
  \<comment> \<open>the text before and after the first occurrence of \<open>sep\<close>, if there is one\<close>
  "py_partition sep [] = (if sep = [] then Some ([], []) else None)"
| "py_partition sep (c # cs) =
     (if py_startswith (c # cs) sep then Some ([], drop (length sep) (c # cs))
      else map_option (\<lambda>(a, b). (c # a, b)) (py_partition sep cs))"

definition py_split2 :: "ustring \<Rightarrow> ustring \<Rightarrow> ustring list" where
  \<comment> \<open>\<open>s.split(sep, 2)\<close>: at most two splits, left to right\<close>
  "py_split2 sep s =
     (case py_partition sep s of
        None \<Rightarrow> [s]
      | Some (a, r) \<Rightarrow>
          (case py_partition sep r of
             None \<Rightarrow> [a, r]
           | Some (b, c) \<Rightarrow> [a, b, c]))"

fun py_split_char :: "codepoint \<Rightarrow> ustring \<Rightarrow> ustring list" where
  \<comment> \<open>\<open>s.split(d)\<close> for a one-character separator\<close>
  "py_split_char d [] = [[]]"
| "py_split_char d (c # cs) =
     (if c = d then [] # py_split_char d cs
      else (case py_split_char d cs of
              [] \<Rightarrow> [[c]]
            | p # ps \<Rightarrow> (c # p) # ps))"

definition py_split1 :: "codepoint \<Rightarrow> ustring \<Rightarrow> ustring \<times> ustring" where
  \<comment> \<open>\<open>key, value = s.split(d, 1)\<close> for a string \<open>s\<close> that contains \<open>d\<close>\<close>
  "py_split1 d s = (takeWhile (\<lambda>x. x \<noteq> d) s, tl (dropWhile (\<lambda>x. x \<noteq> d) s))"

definition py_str :: "py_value \<Rightarrow> ustring" where
  \<comment> \<open>\<open>str(v)\<close>, also what an f-string prints for \<open>v\<close>\<close>
  "py_str v = (case v of None \<Rightarrow> (ustr ''None'') | Some s \<Rightarrow> s)"

definition dquote :: codepoint where "dquote = 0x22"
definition squote :: codepoint where "squote = 0x27"
definition newline :: codepoint where "newline = 0x0A"
definition colon :: codepoint where "colon = 0x3A"
definition dot :: codepoint where "dot = 0x2E"

section \<open>Header parsing\<close>

record md_file =
  file_path :: ustring  \<comment> \<open>\<open>str(md_file)\<close>\<close>
  rel_path :: ustring  \<comment> \<open>\<open>str(md_file.relative_to(repo_root))\<close>\<close>
  read_text :: "ustring + ustring"  \<comment> \<open>the decoded content, or the text of the exception\<close>

definition null_coerce :: "ustring \<Rightarrow> py_value" where
  \<comment> \<open>\<open>if value.lower() in ('null', '~', ''): value = None\<close>\<close>
  "null_coerce v = (if py_lower v \<in> set [ustr ''null'', ustr ''~'', []] then None else Some v)"

definition frontmatter_block :: "ustring \<Rightarrow> ustring option" where
  \<comment> \<open>\<open>parts[1]\<close> of \<open>content.split('---', 2)\<close>, when the content starts with the marker
      and the split has three parts\<close>
  "frontmatter_block content =
     (if \<not> py_startswith content (ustr ''---'') then None
      else (let parts = py_split2 (ustr ''---'') content
            in if length parts < 3 then None else Some (parts ! 1)))"

subsection \<open>The Registry Builder's parser\<close>

definition builder_unquote :: "ustring \<Rightarrow> ustring" where
  "builder_unquote v =
     (if py_startswith v [dquote] \<and> py_endswith v [dquote] then butlast (tl v)
      else if py_startswith v [squote] \<and> py_endswith v [squote] then butlast (tl v)
      else v)"

definition builder_parse_line :: "metadata \<Rightarrow> ustring \<Rightarrow> metadata" where
  "builder_parse_line md raw =
     (let line = py_strip raw
      in if colon \<in> set line
         then (let (k, v) = py_split1 colon line;
                   key = py_strip k;
                   v1 = py_strip v;
                   v2 = builder_unquote v1
               in AList.update key (null_coerce v2) md)
         else md)"

definition builder_parse :: "ustring \<Rightarrow> metadata option" where
  "builder_parse content =
     (case frontmatter_block content of
        None \<Rightarrow> None
      | Some block \<Rightarrow>
          (let md = foldl builder_parse_line [] (py_split_char newline (py_strip block))
           in if md = [] then None else Some md))"

definition builder_extract_frontmatter ::
  "md_file \<Rightarrow> ustring list \<Rightarrow> metadata option \<times> ustring list" where
  \<comment> \<open>\<open>DocRegistryBuilder.extract_frontmatter\<close>; the second component is \<open>self.errors\<close>\<close>
  "builder_extract_frontmatter f errors =
     (case read_text f of
        Inl e \<Rightarrow> (None, errors @ [ustr ''Cannot read '' @ file_path f @ ustr '': '' @ e])
      | Inr content \<Rightarrow> (builder_parse content, errors))"

subsection \<open>The Version Extractor's parser\<close>

definition extractor_unquote :: "ustring \<Rightarrow> ustring" where
  \<comment> \<open>\<open>.strip('"').strip("'")\<close>\<close>
  "extractor_unquote v = py_strip_char squote (py_strip_char dquote v)"

definition extractor_parse_line :: "metadata \<Rightarrow> ustring \<Rightarrow> metadata" where
  "extractor_parse_line md line =
     (if colon \<in> set line
      then (let (k, v) = py_split1 colon line;
                key = py_strip k;
                v1 = extractor_unquote (py_strip v)
            in AList.update key (null_coerce v1) md)
      else md)"

definition extractor_parse :: "ustring \<Rightarrow> metadata option" where
  "extractor_parse content =
     (case frontmatter_block content of
        None \<Rightarrow> None
      | Some block \<Rightarrow>
          (let md = foldl extractor_parse_line [] (py_split_char newline (py_strip block))
           in if md = [] then None else Some md))"

definition extractor_extract_frontmatter :: "md_file \<Rightarrow> metadata option" where
  \<comment> \<open>\<open>DocumentVersionExtractor.extract_frontmatter\<close>\<close>
  "extractor_extract_frontmatter f =
     (case read_text f of
        Inl e \<Rightarrow> None
      | Inr content \<Rightarrow> extractor_parse content)"

section \<open>Regular expressions\<close>

text \<open>
  The fragment of Python's \<open>re\<close> syntax that the validator's pattern uses, matched by
  derivatives. \<open>re_match_anchored r s\<close> is \<open>re.match('^' + r + '$', s)\<close> being a match:
  \<open>$\<close> matches at the end of the string and also just before a newline that ends it.
\<close>

datatype rx = Nul | Eps | Digit | Chr codepoint | Alt rx rx | Cat rx rx | Star rx | Plus rx

definition decimal_zeros :: "codepoint list" where
  \<comment> \<open>the digit zero of each of the 66 decimal number systems of Unicode 14.0, from
      \<open>0\<close> (U+0030) and the Arabic-Indic zero (U+0660) on; the digits one to nine of a
      system follow its zero\<close>
  "decimal_zeros =
     [0x30, 0x660, 0x6F0, 0x7C0, 0x966, 0x9E6, 0xA66, 0xAE6, 0xB66, 0xBE6, 0xC66, 0xCE6,
      0xD66, 0xDE6, 0xE50, 0xED0, 0xF20, 0x1040, 0x1090, 0x17E0, 0x1810, 0x1946, 0x19D0,
      0x1A80, 0x1A90, 0x1B50, 0x1BB0, 0x1C40, 0x1C50, 0xA620, 0xA8D0, 0xA900, 0xA9D0,
      0xA9F0, 0xAA50, 0xABF0, 0xFF10, 0x104A0, 0x10D30, 0x11066, 0x110F0, 0x11136,
      0x111D0, 0x112F0, 0x11450, 0x114D0, 0x11650, 0x116C0, 0x11730, 0x118E0, 0x11950,
      0x11C50, 0x11D50, 0x11DA0, 0x16A60, 0x16AC0, 0x16B50, 0x1D7CE, 0x1D7D8, 0x1D7E2,
      0x1D7EC, 0x1D7F6, 0x1E140, 0x1E2F0, 0x1E950, 0x1FBF0]"

definition unicode_decimal :: "codepoint \<Rightarrow> bool" where
  \<comment> \<open>what \<open>\d\<close> matches in a \<open>str\<close> pattern: every Unicode decimal digit (category Nd),
      not only \<open>0\<close> to \<open>9\<close>\<close>
  "unicode_decimal n = list_ex (\<lambda>z. z \<le> n \<and> n < z + 10) decimal_zeros"

fun nullable :: "rx \<Rightarrow> bool" where
  "nullable Nul = False"
| "nullable Eps = True"
| "nullable Digit = False"
| "nullable (Chr d) = False"
| "nullable (Alt r s) = (nullable r \<or> nullable s)"
| "nullable (Cat r s) = (nullable r \<and> nullable s)"
| "nullable (Star r) = True"
| "nullable (Plus r) = nullable r"

fun deriv :: "codepoint \<Rightarrow> rx \<Rightarrow> rx" where
  "deriv c Nul = Nul"
| "deriv c Eps = Nul"
| "deriv c Digit = (if unicode_decimal c then Eps else Nul)"
| "deriv c (Chr d) = (if c = d then Eps else Nul)"
| "deriv c (Alt r s) = Alt (deriv c r) (deriv c s)"
| "deriv c (Cat r s) =
     (if nullable r then Alt (Cat (deriv c r) s) (deriv c s) else Cat (deriv c r) s)"
| "deriv c (Star r) = Cat (deriv c r) (Star r)"
| "deriv c (Plus r) = Cat (deriv c r) (Star r)"

definition rx_fullmatch :: "rx \<Rightarrow> ustring \<Rightarrow> bool" where
  "rx_fullmatch r s = nullable (foldl (\<lambda>q c. deriv c q) r s)"

definition re_match_anchored :: "rx \<Rightarrow> ustring \<Rightarrow> bool" where
  "re_match_anchored r s =
     (rx_fullmatch r s \<or> (s \<noteq> [] \<and> last s = newline \<and> rx_fullmatch r (butlast s)))"

section \<open>Record validation\<close>

definition py_join :: "ustring \<Rightarrow> ustring list \<Rightarrow> ustring" where
  \<comment> \<open>\<open>sep.join(xs)\<close>\<close>
  "py_join sep xs = (case xs of [] \<Rightarrow> [] | x # ys \<Rightarrow> x @ concat (map (\<lambda>y. sep @ y) ys))"

definition md_has :: "metadata \<Rightarrow> ustring \<Rightarrow> bool" where
  \<comment> \<open>\<open>k in metadata\<close>\<close>
  "md_has md k = (k \<in> set (map fst md))"

definition md_get :: "metadata \<Rightarrow> ustring \<Rightarrow> py_value" where
  \<comment> \<open>\<open>metadata.get(k)\<close>; it is \<open>metadata[k]\<close> where the key is known to be present\<close>
  "md_get md k = (case map_of md k of None \<Rightarrow> None | Some v \<Rightarrow> v)"

definition required_fields :: "ustring list" where
  "required_fields =
     [ustr ''doc_key'', ustr ''semver'', ustr ''status'', ustr ''effective_date'', ustr ''owner'', ustr ''contract_type'']"

definition semver_pattern :: rx where
  \<comment> \<open>\<open>\d+\.\d+\.\d+\<close>\<close>
  "semver_pattern =
     Cat (Plus Digit) (Cat (Chr dot) (Cat (Plus Digit) (Cat (Chr dot) (Plus Digit))))"

definition valid_statuses :: "ustring list" where
  "valid_statuses = [ustr ''active'', ustr ''deprecated'', ustr ''frozen'']"

definition valid_types :: "ustring list" where
  "valid_types = [ustr ''policy'', ustr ''intent'', ustr ''execution_contract'']"

definition missing_msg :: "md_file \<Rightarrow> ustring list \<Rightarrow> ustring" where
  "missing_msg f missing =
     file_path f @ ustr '': Missing required fields: '' @ py_join (ustr '', '') missing"

definition semver_msg :: "md_file \<Rightarrow> py_value \<Rightarrow> ustring" where
  "semver_msg f v =
     file_path f @ ustr '': Invalid semver format '' @ [squote] @ py_str v @ [squote]
       @ ustr '' (must be MAJOR.MINOR.PATCH)''"

definition status_msg :: "md_file \<Rightarrow> py_value \<Rightarrow> ustring" where
  "status_msg f v =
     file_path f @ ustr '': Invalid status '' @ [squote] @ py_str v @ [squote]
       @ ustr '' (must be one of: '' @ py_join (ustr '', '') valid_statuses @ ustr '')''"

definition contract_type_msg :: "md_file \<Rightarrow> py_value \<Rightarrow> ustring" where
  "contract_type_msg f v =
     file_path f @ ustr '': Invalid contract_type '' @ [squote] @ py_str v @ [squote]
       @ ustr '' (must be one of: '' @ py_join (ustr '', '') valid_types @ ustr '')''"

definition validate_frontmatter ::
  "metadata \<Rightarrow> md_file \<Rightarrow> ustring list \<Rightarrow> bool \<times> ustring list" where
  \<comment> \<open>\<open>DocRegistryBuilder.validate_frontmatter\<close>; the second component is \<open>self.errors\<close>\<close>
  "validate_frontmatter md f errors =
     (let missing = filter (\<lambda>x. \<not> md_has md x) required_fields
      in if missing \<noteq> [] then (False, errors @ [missing_msg f missing])
         else if \<not> re_match_anchored semver_pattern (py_str (md_get md (ustr ''semver'')))
         then (False, errors @ [semver_msg f (md_get md (ustr ''semver''))])
         else if md_get md (ustr ''status'') \<notin> set (map Some valid_statuses)
         then (False, errors @ [status_msg f (md_get md (ustr ''status''))])
         else if md_get md (ustr ''contract_type'') \<notin> set (map Some valid_types)
         then (False, errors @ [contract_type_msg f (md_get md (ustr ''contract_type''))])
         else (True, errors))"

section \<open>The Registry Builder\<close>

record document_record =
  dr_doc_key :: py_value
  dr_path :: ustring
  dr_semver :: py_value
  dr_status :: py_value
  dr_effective_date :: py_value
  dr_owner :: py_value
  dr_contract_type :: py_value
  dr_supersedes_version :: py_value

record builder =
  registry :: "(py_value \<times> document_record) list"
  duplicates :: "(py_value \<times> ustring \<times> ustring) list"
  errors :: "ustring list"

definition new_builder :: builder where
  "new_builder = \<lparr>registry = [], duplicates = [], errors = []\<rparr>"

definition make_record :: "metadata \<Rightarrow> md_file \<Rightarrow> document_record" where
  "make_record md f =
     \<lparr>dr_doc_key = md_get md (ustr ''doc_key''),
      dr_path = rel_path f,
      dr_semver = md_get md (ustr ''semver''),
      dr_status = md_get md (ustr ''status''),
      dr_effective_date = md_get md (ustr ''effective_date''),
      dr_owner = md_get md (ustr ''owner''),
      dr_contract_type = md_get md (ustr ''contract_type''),
      dr_supersedes_version = md_get md (ustr ''supersedes_version'')\<rparr>"

definition scan_file :: "md_file \<Rightarrow> builder \<times> nat \<Rightarrow> builder \<times> nat" where
  \<comment> \<open>the body of the loop over \<open>root.rglob("*.md")\<close>; the number is \<open>doc_count\<close>\<close>
  "scan_file f = (\<lambda>(b, doc_count).
     (let (mdo, errs1) = builder_extract_frontmatter f (errors b);
          b1 = b\<lparr>errors := errs1\<rparr>
      in case mdo of
           None \<Rightarrow> (b1, doc_count)
         | Some md \<Rightarrow>
             if \<not> md_has md (ustr ''doc_key'') then (b1, doc_count)
             else (let (ok, errs2) = validate_frontmatter md f (errors b1);
                       b2 = b1\<lparr>errors := errs2\<rparr>
                   in if \<not> ok then (b2, doc_count)
                      else (let doc_key = md_get md (ustr ''doc_key'')
                            in case map_of (registry b2) doc_key of
                                 Some existing \<Rightarrow>
                                   (b2\<lparr>duplicates := duplicates b2
                                          @ [(doc_key, dr_path existing, rel_path f)]\<rparr>,
                                    doc_count)
                               | None \<Rightarrow>
                                   (b2\<lparr>registry := registry b2
                                          @ [(doc_key, make_record md f)]\<rparr>,
                                    doc_count + 1)))))"

text \<open>
  The document tree is given by what the two \<open>rglob\<close> calls yield, in their order; a root
  that does not exist yields nothing.
\<close>

record doc_tree =
  docs_files :: "md_file list"
  plans_files :: "md_file list"

definition scan_files :: "md_file list \<Rightarrow> builder \<times> nat \<Rightarrow> builder \<times> nat" where
  "scan_files fs s = foldl (\<lambda>s f. scan_file f s) s fs"

definition scan_documents :: "builder \<Rightarrow> doc_tree \<Rightarrow> builder \<times> nat" where
  \<comment> \<open>\<open>DocRegistryBuilder.scan_documents\<close>\<close>
  "scan_documents b t = scan_files (plans_files t) (scan_files (docs_files t) (b, 0))"

definition report_status :: "builder \<Rightarrow> bool" where
  \<comment> \<open>\<open>DocRegistryBuilder.report_status\<close>, without the printing\<close>
  "report_status b =
     (if duplicates b \<noteq> [] then False
      else if errors b \<noteq> [] then False
      else True)"

section \<open>Persisting the registry\<close>

text \<open>
  \<open>json.dump(registry_dict, f, indent=2, sort_keys=True)\<close>, written out for a dictionary of
  dictionaries of strings. With \<open>sort_keys\<close> the encoder sorts the items of every dictionary
  by key before it prints them; comparing the key \<open>None\<close> with a string raises
  \<open>TypeError\<close>, which happens as soon as a dictionary has the key \<open>None\<close> and another
  one. The key \<open>None\<close> is printed as \<open>"null"\<close>.
\<close>

definition backslash :: codepoint where "backslash = 0x5C"

definition hex_digit :: "int \<Rightarrow> codepoint" where
  "hex_digit n = (if n < 10 then 48 + n else 87 + n)"

definition hex4 :: "int \<Rightarrow> ustring" where
  \<comment> \<open>\<open>'{0:04x}'.format(n)\<close> for \<open>n\<close> below \<open>0x10000\<close>\<close>
  "hex4 n =
     [hex_digit (n div 4096 mod 16), hex_digit (n div 256 mod 16),
      hex_digit (n div 16 mod 16), hex_digit (n mod 16)]"

definition json_escape_char :: "codepoint \<Rightarrow> ustring" where
  \<comment> \<open>\<open>ensure_ascii=True\<close>: everything outside the printable ASCII range is escaped, a
      code point above \<open>0xFFFF\<close> as a surrogate pair\<close>
  "json_escape_char n =
     (if n = dquote then [backslash, dquote]
      else if n = backslash then [backslash, backslash]
      else if n = 8 then [backslash, cp (CHR ''b'')]
      else if n = 9 then [backslash, cp (CHR ''t'')]
      else if n = 10 then [backslash, cp (CHR ''n'')]
      else if n = 12 then [backslash, cp (CHR ''f'')]
      else if n = 13 then [backslash, cp (CHR ''r'')]
      else if 32 \<le> n \<and> n \<le> 126 then [n]
      else if n < 65536 then [backslash, cp (CHR ''u'')] @ hex4 n
      else (let v = n - 65536
            in [backslash, cp (CHR ''u'')] @ hex4 (55296 + v div 1024 mod 1024)
               @ [backslash, cp (CHR ''u'')] @ hex4 (56320 + v mod 1024)))"

definition json_string :: "ustring \<Rightarrow> ustring" where
  "json_string s = [dquote] @ concat (map json_escape_char s) @ [dquote]"

definition json_value :: "py_value \<Rightarrow> ustring" where
  "json_value v = (case v of None \<Rightarrow> (ustr ''null'') | Some s \<Rightarrow> json_string s)"

definition json_key :: "py_value \<Rightarrow> ustring" where
  "json_key k = (case k of None \<Rightarrow> json_string (ustr ''null'') | Some s \<Rightarrow> json_string s)"

definition json_indent :: "nat \<Rightarrow> ustring" where
  "json_indent lvl = newline # replicate (2 * lvl) (cp (CHR '' ''))"

definition json_object :: "nat \<Rightarrow> (ustring \<times> ustring) list \<Rightarrow> ustring" where
  \<comment> \<open>a dictionary at nesting level \<open>lvl\<close>, from its encoded keys and values\<close>
  "json_object lvl items =
     (if items = [] then (ustr ''{}'')
      else ustr ''{'' @ json_indent (lvl + 1)
           @ py_join (ustr '','' @ json_indent (lvl + 1)) (map (\<lambda>(k, v). k @ ustr '': '' @ v) items)
           @ json_indent lvl @ ustr ''}'')"

definition sort_items :: "(py_value \<times> 'a) list \<Rightarrow> py_error + (py_value \<times> 'a) list" where
  \<comment> \<open>\<open>sorted(dct.items())\<close> for a dictionary whose keys are strings or \<open>None\<close>\<close>
  "sort_items items =
     (if None \<in> set (map fst items) \<and> 2 \<le> length items then Inl TypeError
      else Inr (sort_key fst items))"

definition asdict_record :: "document_record \<Rightarrow> (ustring \<times> py_value) list" where
  \<comment> \<open>\<open>asdict(record)\<close>, in the order of the dataclass's fields\<close>
  "asdict_record r =
     [(ustr ''doc_key'', dr_doc_key r),
      (ustr ''path'', Some (dr_path r)),
      (ustr ''semver'', dr_semver r),
      (ustr ''status'', dr_status r),
      (ustr ''effective_date'', dr_effective_date r),
      (ustr ''owner'', dr_owner r),
      (ustr ''contract_type'', dr_contract_type r),
      (ustr ''supersedes_version'', dr_supersedes_version r)]"

definition dump_fields :: "nat \<Rightarrow> (ustring \<times> py_value) list \<Rightarrow> ustring" where
  "dump_fields lvl d =
     json_object lvl (map (\<lambda>(k, v). (json_string k, json_value v)) (sort_key fst d))"

definition save_registry :: "builder \<Rightarrow> py_error + ustring" where
  \<comment> \<open>\<open>DocRegistryBuilder.save_registry\<close>: the text written to the output file\<close>
  "save_registry b =
     (let registry_dict = map (\<lambda>(doc_key, r). (doc_key, asdict_record r)) (registry b)
      in case sort_items registry_dict of
           Inl e \<Rightarrow> Inl e
         | Inr items \<Rightarrow>
             Inr (json_object 0 (map (\<lambda>(k, d). (json_key k, dump_fields 1 d)) items)))"

datatype file_state = Untouched | Incomplete | Written ustring

record main_result =
  exit_status :: nat
  output_file :: file_state

definition main :: "bool \<Rightarrow> doc_tree \<Rightarrow> main_result" where
  \<comment> \<open>\<open>main\<close> of the builder, on a writable output path. An exception that leaves
      \<open>save_registry\<close> ends the process with status 1, after the file was opened for
      writing.\<close>
  "main check_only t =
     (let (b, doc_count) = scan_documents new_builder t;
          success = report_status b
      in if success \<and> \<not> check_only
         then (case save_registry b of
                 Inl e \<Rightarrow> \<lparr>exit_status = 1, output_file = Incomplete\<rparr>
               | Inr text \<Rightarrow> \<lparr>exit_status = 0, output_file = Written text\<rparr>)
         else \<lparr>exit_status = (if success then 0 else 1), output_file = Untouched\<rparr>)"

section \<open>The Version Extractor\<close>

record document_version =
  dv_doc_key :: py_value
  dv_semver :: py_value
  dv_status :: py_value
  dv_effective_date :: py_value
  dv_contract_type :: py_value
  dv_path :: ustring

type_synonym versions = "(py_value \<times> document_version) list"

definition extractor_required :: "ustring list" where
  "extractor_required = [ustr ''doc_key'', ustr ''semver'', ustr ''status'', ustr ''effective_date'', ustr ''contract_type'']"

definition make_version :: "metadata \<Rightarrow> md_file \<Rightarrow> document_version" where
  "make_version md f =
     \<lparr>dv_doc_key = md_get md (ustr ''doc_key''),
      dv_semver = md_get md (ustr ''semver''),
      dv_status = md_get md (ustr ''status''),
      dv_effective_date = md_get md (ustr ''effective_date''),
      dv_contract_type = md_get md (ustr ''contract_type''),
      dv_path = rel_path f\<rparr>"

definition filtered_out :: "ustring option \<Rightarrow> metadata \<Rightarrow> bool" where
  \<comment> \<open>\<open>status_filter and metadata.get('status') != status_filter\<close>\<close>
  "filtered_out status_filter md =
     (case status_filter of
        None \<Rightarrow> False
      | Some sf \<Rightarrow> sf \<noteq> [] \<and> md_get md (ustr ''status'') \<noteq> Some sf)"

definition extractor_scan_file ::
  "ustring option \<Rightarrow> md_file \<Rightarrow> versions \<times> nat \<Rightarrow> versions \<times> nat" where
  \<comment> \<open>the body of the extractor's loop; the number is \<open>count\<close>\<close>
  "extractor_scan_file status_filter f = (\<lambda>(vs, count).
     (case extractor_extract_frontmatter f of
        None \<Rightarrow> (vs, count)
      | Some md \<Rightarrow>
          if \<not> md_has md (ustr ''doc_key'') then (vs, count)
          else if filtered_out status_filter md then (vs, count)
          else if \<not> list_all (md_has md) extractor_required then (vs, count)
          else (AList.update (md_get md (ustr ''doc_key'')) (make_version md f) vs, count + 1)))"

definition extractor_scan_files ::
  "ustring option \<Rightarrow> md_file list \<Rightarrow> versions \<times> nat \<Rightarrow> versions \<times> nat" where
  "extractor_scan_files status_filter fs s = foldl (\<lambda>s f. extractor_scan_file status_filter f s) s fs"

definition extractor_scan_documents ::
  "ustring option \<Rightarrow> doc_tree \<Rightarrow> versions \<Rightarrow> versions \<times> nat" where
  \<comment> \<open>\<open>DocumentVersionExtractor.scan_documents\<close>\<close>
  "extractor_scan_documents status_filter t vs =
     extractor_scan_files status_filter (plans_files t)
       (extractor_scan_files status_filter (docs_files t) (vs, 0))"

definition asdict_version :: "document_version \<Rightarrow> (ustring \<times> py_value) list" where
  "asdict_version v =
     [(ustr ''doc_key'', dv_doc_key v),
      (ustr ''semver'', dv_semver v),
      (ustr ''status'', dv_status v),
      (ustr ''effective_date'', dv_effective_date v),
      (ustr ''contract_type'', dv_contract_type v),
      (ustr ''path'', Some (dv_path v))]"

definition to_dict :: "versions \<Rightarrow> (py_value \<times> (ustring \<times> py_value) list) list" where
  "to_dict vs = map (\<lambda>(doc_key, version). (doc_key, asdict_version version)) vs"

definition to_simple_dict :: "versions \<Rightarrow> (py_value \<times> py_value) list" where
  "to_simple_dict vs = map (\<lambda>(doc_key, version). (doc_key, dv_semver version)) vs"

section \<open>The run manager\<close>

text \<open>
  A file written by \<open>json.dump\<close> is modelled by the JSON value it holds, with the keys of
  every object in the order they were written, and \<open>json.load\<close> gives that value back.
  The ledger is the list of its lines, one JSON value each. The clock is a parameter:
  each \<open>now\<close> below is the text of one \<open>datetime.utcnow().isoformat() + 'Z'\<close>.
\<close>

datatype json = JNull | JBool bool | JInt int | JStr ustring | JObj "(ustring \<times> json) list"

record snapshot =
  snap_run_id :: ustring
  snap_timestamp :: ustring
  snap_event :: ustring
  snap_active_policies :: "(py_value \<times> py_value) list"
  snap_policy_count :: nat
  snap_full_details :: "(py_value \<times> (ustring \<times> py_value) list) list"

record run_dir =
  snapshot_file :: "json option"
  ledger_file :: "json list"
  metadata_file :: "json option"

definition json_of_value :: "py_value \<Rightarrow> json" where
  "json_of_value v = (case v of None \<Rightarrow> JNull | Some s \<Rightarrow> JStr s)"

definition json_key_text :: "py_value \<Rightarrow> ustring" where
  "json_key_text k = (case k of None \<Rightarrow> (ustr ''null'') | Some s \<Rightarrow> s)"

definition json_of_simple :: "(py_value \<times> py_value) list \<Rightarrow> json" where
  "json_of_simple d = JObj (map (\<lambda>(k, v). (json_key_text k, json_of_value v)) d)"

definition json_of_fields :: "(ustring \<times> py_value) list \<Rightarrow> json" where
  "json_of_fields d = JObj (map (\<lambda>(k, v). (k, json_of_value v)) d)"

definition json_of_details :: "(py_value \<times> (ustring \<times> py_value) list) list \<Rightarrow> json" where
  "json_of_details d = JObj (map (\<lambda>(k, fields). (json_key_text k, json_of_fields fields)) d)"

definition snapshot_json :: "snapshot \<Rightarrow> json" where
  \<comment> \<open>what \<open>json.dumps(snapshot)\<close> prints: the keys in insertion order\<close>
  "snapshot_json s =
     JObj [(ustr ''run_id'', JStr (snap_run_id s)),
           (ustr ''timestamp'', JStr (snap_timestamp s)),
           (ustr ''event'', JStr (snap_event s)),
           (ustr ''active_policies'', json_of_simple (snap_active_policies s)),
           (ustr ''policy_count'', JInt (int (snap_policy_count s))),
           (ustr ''full_details'', json_of_details (snap_full_details s))]"

definition snapshot_json_sorted :: "snapshot \<Rightarrow> py_error + json" where
  \<comment> \<open>what \<open>json.dump(snapshot, f, indent=2, sort_keys=True)\<close> prints: every dictionary
      sorted by key, which raises where \<open>sort_items\<close> does\<close>
  "snapshot_json_sorted s =
     (case sort_items (snap_active_policies s) of
        Inl e \<Rightarrow> Inl e
      | Inr policies \<Rightarrow>
          (case sort_items (snap_full_details s) of
             Inl e \<Rightarrow> Inl e
           | Inr details \<Rightarrow>
               Inr (JObj [(ustr ''active_policies'', json_of_simple policies),
                          (ustr ''event'', JStr (snap_event s)),
                          (ustr ''full_details'',
                             json_of_details (map (\<lambda>(k, fields). (k, sort_key fst fields)) details)),
                          (ustr ''policy_count'', JInt (int (snap_policy_count s))),
                          (ustr ''run_id'', JStr (snap_run_id s)),
                          (ustr ''timestamp'', JStr (snap_timestamp s))])))"

definition capture_policy_snapshot ::
  "ustring \<Rightarrow> ustring \<Rightarrow> doc_tree \<Rightarrow> run_dir \<Rightarrow> py_error + (snapshot \<times> run_dir)" where
  \<comment> \<open>\<open>PipelineRunManager.capture_policy_snapshot\<close>\<close>
  "capture_policy_snapshot run_id now t rd =
     (let (vs, count) = extractor_scan_documents (Some (ustr ''active'')) t [];
          snap = \<lparr>snap_run_id = run_id,
                  snap_timestamp = now,
                  snap_event = (ustr ''policy_snapshot''),
                  snap_active_policies = to_simple_dict vs,
                  snap_policy_count = count,
                  snap_full_details = to_dict vs\<rparr>
      in case snapshot_json_sorted snap of
           Inl e \<Rightarrow> Inl e
         | Inr j \<Rightarrow> Inr (snap, rd\<lparr>snapshot_file := Some j\<rparr>))"

definition append_to_ledger :: "json \<Rightarrow> run_dir \<Rightarrow> run_dir" where
  \<comment> \<open>\<open>PipelineRunManager.append_to_ledger\<close>: the file is opened in append mode\<close>
  "append_to_ledger event rd = rd\<lparr>ledger_file := ledger_file rd @ [event]\<rparr>"

definition initialize_run ::
  "ustring \<Rightarrow> ustring \<Rightarrow> ustring \<Rightarrow> doc_tree \<Rightarrow> run_dir \<Rightarrow> py_error + (json \<times> run_dir)" where
  \<comment> \<open>\<open>PipelineRunManager.initialize_run\<close>; \<open>now1\<close> stamps the snapshot, \<open>now2\<close> the
      start of the run\<close>
  "initialize_run run_id now1 now2 t rd =
     (case capture_policy_snapshot run_id now1 t rd of
        Inl e \<Rightarrow> Inl e
      | Inr (snap, rd1) \<Rightarrow>
          (let rd2 = append_to_ledger (snapshot_json snap) rd1;
               metadata = JObj [(ustr ''run_id'', JStr run_id),
                                (ustr ''start_time'', JStr now2),
                                (ustr ''policies_in_force'', json_of_simple (snap_active_policies snap)),
                                (ustr ''policy_count'', JInt (int (snap_policy_count snap)))]
           in Inr (metadata, rd2\<lparr>metadata_file := Some metadata\<rparr>)))"

definition run_complete_event :: "ustring \<Rightarrow> json \<Rightarrow> bool \<Rightarrow> json" where
  "run_complete_event run_id end_time success =
     JObj [(ustr ''run_id'', JStr run_id),
           (ustr ''timestamp'', end_time),
           (ustr ''event'', JStr (ustr ''run_complete'')),
           (ustr ''success'', JBool success)]"

definition finalize_run :: "ustring \<Rightarrow> ustring \<Rightarrow> bool \<Rightarrow> run_dir \<Rightarrow> py_error + run_dir" where
  \<comment> \<open>\<open>PipelineRunManager.finalize_run\<close>\<close>
  "finalize_run run_id now success rd =
     (case metadata_file rd of
        None \<Rightarrow> Inl FileNotFoundError
      | Some (JObj md) \<Rightarrow>
          (let md1 = AList.update (ustr ''end_time'') (JStr now) md;
               md2 = AList.update (ustr ''success'') (JBool success) md1;
               rd1 = rd\<lparr>metadata_file := Some (JObj md2)\<rparr>
           in Inr (append_to_ledger (run_complete_event run_id (JStr now) success) rd1))
      | Some _ \<Rightarrow> Inl TypeError)"

section \<open>Example documents\<close>

definition doc_at :: "ustring \<Rightarrow> ustring \<Rightarrow> md_file" where
  "doc_at p content = \<lparr>file_path = p, rel_path = p, read_text = Inr content\<rparr>"

definition header :: "ustring \<Rightarrow> ustring \<Rightarrow> ustring \<Rightarrow> ustring" where
  "header k v st =
     ustr ''---\<newline>doc_key: '' @ k @ ustr ''\<newline>semver: '' @ v @ ustr ''\<newline>status: '' @ st
       @ ustr ''\<newline>effective_date: 2024-01-01\<newline>owner: platform-team''
       @ ustr ''\<newline>contract_type: policy\<newline>---\<newline>text''"

definition retention_a :: md_file where
  "retention_a = doc_at (ustr ''docs/a.md'') (header (ustr ''policy.retention'') (ustr ''2.1.0'') (ustr ''active''))"

definition retention_b :: md_file where
  "retention_b = doc_at (ustr ''docs/b.md'') (header (ustr ''policy.retention'') (ustr ''3.0.0'') (ustr ''active''))"

definition retention_short :: md_file where
  "retention_short = doc_at (ustr ''docs/c.md'') (header (ustr ''policy.retention'') (ustr ''2.1'') (ustr ''active''))"

definition access_doc :: md_file where
  "access_doc = doc_at (ustr ''plans/d.md'') (header (ustr ''policy.access'') (ustr ''1.0.0'') (ustr ''active''))"

definition null_key_doc :: md_file where
  "null_key_doc = doc_at (ustr ''docs/n.md'') (header (ustr ''null'') (ustr ''1.0.0'') (ustr ''active''))"

definition unversioned_doc :: md_file where
  "unversioned_doc = doc_at (ustr ''docs/readme.md'') (ustr ''# Readme'')"

definition one_registered :: builder where
  "one_registered = fst (scan_file retention_a (new_builder, 0))"

section \<open>Notions used by the statements\<close>

definition valid_header :: "md_file \<Rightarrow> metadata option" where
  \<comment> \<open>the parsed header of a document that has a \<open>doc_key\<close> and passes validation\<close>
  "valid_header f =
     (case read_text f of
        Inl e \<Rightarrow> None
      | Inr content \<Rightarrow>
          (case builder_parse content of
             None \<Rightarrow> None
           | Some md \<Rightarrow>
               if md_has md (ustr ''doc_key'') \<and> fst (validate_frontmatter md f []) then Some md
               else None))"

definition claims :: "md_file \<Rightarrow> py_value \<Rightarrow> bool" where
  \<comment> \<open>the document has a valid header that declares the key \<open>k\<close>\<close>
  "claims f k = (case valid_header f of None \<Rightarrow> False | Some md \<Rightarrow> md_get md (ustr ''doc_key'') = k)"

definition file_errors :: "md_file \<Rightarrow> ustring list" where
  \<comment> \<open>the diagnostics that scanning the document alone produces\<close>
  "file_errors f = errors (fst (scan_file f (new_builder, 0)))"

definition with_key :: "'k \<Rightarrow> ('k \<times> 'v) list \<Rightarrow> ('k \<times> 'v) list" where
  "with_key k xs = filter (\<lambda>p. fst p = k) xs"

definition example_tree :: doc_tree where
  "example_tree =
     \<lparr>docs_files = [unversioned_doc, retention_a, retention_short, retention_b],
      plans_files = [access_doc]\<rparr>"

definition retention_md :: "ustring \<Rightarrow> metadata" where
  "retention_md v =
     [(ustr ''doc_key'', Some (ustr ''policy.retention'')), (ustr ''semver'', Some v),
      (ustr ''status'', Some (ustr ''active'')), (ustr ''effective_date'', Some (ustr ''2024-01-01'')),
      (ustr ''owner'', Some (ustr ''platform-team'')), (ustr ''contract_type'', Some (ustr ''policy''))]"

definition qualifying_key :: "ustring option \<Rightarrow> md_file \<Rightarrow> py_value option" where
  \<comment> \<open>the key under which the extractor's scan stores the document, if it does\<close>
  "qualifying_key status_filter f =
     (case extractor_extract_frontmatter f of
        None \<Rightarrow> None
      | Some md \<Rightarrow>
          if md_has md (ustr ''doc_key'') \<and> \<not> filtered_out status_filter md
             \<and> list_all (md_has md) extractor_required
          then Some (md_get md (ustr ''doc_key''))
          else None)"

definition qualifying_keys :: "ustring option \<Rightarrow> doc_tree \<Rightarrow> py_value list" where
  \<comment> \<open>the keys of the qualifying documents, one per document, in scan order\<close>
  "qualifying_keys status_filter t =
     List.map_filter (qualifying_key status_filter) (docs_files t @ plans_files t)"

definition empty_run_dir :: run_dir where
  "empty_run_dir = \<lparr>snapshot_file = None, ledger_file = [], metadata_file = None\<rparr>"

definition metadata_fields :: "ustring list" where
  "metadata_fields = [ustr ''run_id'', ustr ''start_time'', ustr ''policies_in_force'', ustr ''policy_count'']"

subsection \<open>The language of a regular expression, and the shape of a semver\<close>




definition digits :: "ustring \<Rightarrow> bool" where
  \<comment> \<open>one or more decimal digits, of any script\<close>
  "digits s = (s \<noteq> [] \<and> list_all unicode_decimal s)"

definition semver_shape :: "ustring \<Rightarrow> bool" where
  \<comment> \<open>one or more digits, a dot, one or more digits, a dot, one or more digits\<close>
  "semver_shape s = (\<exists>a b c. digits a \<and> digits b \<and> digits c \<and> s = a @ [dot] @ b @ [dot] @ c)"


definition builder_entry :: "md_file \<Rightarrow> (py_value \<times> document_record) option" where
  \<comment> \<open>the registry entry that a document with a valid header stands for\<close>
  "builder_entry f =
     map_option (\<lambda>md. (md_get md (ustr ''doc_key''), make_record md f)) (valid_header f)"





definition null_key_tree :: doc_tree where
  "null_key_tree = \<lparr>docs_files = [null_key_doc], plans_files = [access_doc]\<rparr>"

definition null_key_record :: document_record where
  "null_key_record =
     \<lparr>dr_doc_key = None, dr_path = (ustr ''docs/n.md''), dr_semver = Some (ustr ''1.0.0''),
      dr_status = Some (ustr ''active''), dr_effective_date = Some (ustr ''2024-01-01''),
      dr_owner = Some (ustr ''platform-team''), dr_contract_type = Some (ustr ''policy''),
      dr_supersedes_version = None\<rparr>"

definition access_record :: document_record where
  "access_record =
     \<lparr>dr_doc_key = Some (ustr ''policy.access''), dr_path = (ustr ''plans/d.md''), dr_semver = Some (ustr ''1.0.0''),
      dr_status = Some (ustr ''active''), dr_effective_date = Some (ustr ''2024-01-01''),
      dr_owner = Some (ustr ''platform-team''), dr_contract_type = Some (ustr ''policy''),
      dr_supersedes_version = None\<rparr>"

subsection \<open>The parsing rule in the specification's words\<close>

definition spec_unquote :: "ustring \<Rightarrow> ustring" where
  \<comment> \<open>if the value is wrapped in a single layer of matching single or double quotes,
      strip exactly that one layer\<close>
  "spec_unquote v =
     (if 2 \<le> length v \<and> hd v = last v \<and> (hd v = dquote \<or> hd v = squote)
      then butlast (tl v) else v)"

definition spec_parse_line :: "metadata \<Rightarrow> ustring \<Rightarrow> metadata" where
  \<comment> \<open>split on the first colon, trim both sides, strip one layer of quotes, store null
      for \<open>null\<close>, \<open>~\<close> and the empty string; a line without a colon is ignored\<close>
  "spec_parse_line md line =
     (if colon \<in> set line
      then AList.update (py_strip (fst (py_split1 colon line)))
             (null_coerce (spec_unquote (py_strip (snd (py_split1 colon line))))) md
      else md)"

definition mismatched_doc :: md_file where
  \<open>mismatched_doc = doc_at (ustr ''docs/q.md'') (ustr ''---\<newline>doc_key: "policy.access'\<newline>---\<newline>'')\<close>

definition doubled_doc :: md_file where
  \<open>doubled_doc = doc_at (ustr ''docs/q2.md'') (ustr ''---\<newline>doc_key: ""policy.access""\<newline>---\<newline>'')\<close>




section \<open>Validation and the duplicate check\<close>

lemma validate_True_errors:
  "validate_frontmatter md f errs = (True, errs') \<Longrightarrow> errs' = errs"
  by (auto simp: validate_frontmatter_def Let_def split: if_splits)

lemma validate_False_errors:
  "validate_frontmatter md f errs = (False, errs') \<Longrightarrow> \<exists>msg. errs' = errs @ [msg]"
  by (auto simp: validate_frontmatter_def Let_def split: if_splits)

lemma scan_file_unfold:
  "read_text f = Inr content \<Longrightarrow> builder_parse content = Some md \<Longrightarrow> md_has md (ustr ''doc_key'') \<Longrightarrow>
   scan_file f (b, n) =
     (let (ok, errs2) = validate_frontmatter md f (errors b);
          b2 = b\<lparr>errors := errs2\<rparr>
      in if \<not> ok then (b2, n)
         else (case map_of (registry b) (md_get md (ustr ''doc_key'')) of
                 Some existing \<Rightarrow>
                   (b2\<lparr>duplicates := duplicates b @ [(md_get md (ustr ''doc_key''), dr_path existing, rel_path f)]\<rparr>, n)
               | None \<Rightarrow>
                   (b2\<lparr>registry := registry b @ [(md_get md (ustr ''doc_key''), make_record md f)]\<rparr>, n + 1)))"
  by (simp add: scan_file_def builder_extract_frontmatter_def Let_def split: prod.splits option.splits)

lemma scan_file_duplicates_changed:
  assumes "duplicates (fst (scan_file f (b, n))) \<noteq> duplicates b"
  shows "\<exists>content md existing. read_text f = Inr content \<and> builder_parse content = Some md
           \<and> md_has md (ustr ''doc_key'')
           \<and> fst (validate_frontmatter md f (errors b))
           \<and> map_of (registry b) (md_get md (ustr ''doc_key'')) = Some existing
           \<and> duplicates (fst (scan_file f (b, n)))
               = duplicates b @ [(md_get md (ustr ''doc_key''), dr_path existing, rel_path f)]"
  using assms
  by (auto simp: scan_file_def builder_extract_frontmatter_def Let_def split: prod.splits option.splits sum.splits if_splits)

text \<open>
  Claim C9. In the builder's scan, validation runs before the duplicate check. A document
  with a parsed header and a \<open>doc_key\<close> that is already registered, whose metadata fails
  validation, leaves the registry, the duplicates and the count as they are and adds
  one message to the errors. A scan step that changes the duplicates list comes from a
  document that passed validation and whose key was registered, and appends the one
  tuple of key, registered path and own path.
\<close>

theorem validation_precedes_duplicate_check:
  "(read_text f = Inr content \<and> builder_parse content = Some md \<and> md_has md (ustr ''doc_key'')
      \<and> map_of (registry b) (md_get md (ustr ''doc_key'')) \<noteq> None
      \<and> \<not> fst (validate_frontmatter md f (errors b))
    \<longrightarrow> (\<exists>msg. scan_file f (b, n) = (b\<lparr>errors := errors b @ [msg]\<rparr>, n)))
   \<and> (duplicates (fst (scan_file f (b, n))) \<noteq> duplicates b
    \<longrightarrow> (\<exists>content md existing. read_text f = Inr content \<and> builder_parse content = Some md
           \<and> md_has md (ustr ''doc_key'')
           \<and> fst (validate_frontmatter md f (errors b))
           \<and> map_of (registry b) (md_get md (ustr ''doc_key'')) = Some existing
           \<and> duplicates (fst (scan_file f (b, n)))
               = duplicates b @ [(md_get md (ustr ''doc_key''), dr_path existing, rel_path f)]))"
proof (intro conjI impI)
  assume a: "read_text f = Inr content \<and> builder_parse content = Some md \<and> md_has md (ustr ''doc_key'')
      \<and> map_of (registry b) (md_get md (ustr ''doc_key'')) \<noteq> None
      \<and> \<not> fst (validate_frontmatter md f (errors b))"
  obtain ok errs2 where v: "validate_frontmatter md f (errors b) = (ok, errs2)"
    by (cases "validate_frontmatter md f (errors b)")
  with a have nok: "\<not> ok" by simp
  from v nok obtain msg where m: "errs2 = errors b @ [msg]"
    using validate_False_errors [of md f "errors b" errs2] by auto
  from a v nok have "scan_file f (b, n) = (b\<lparr>errors := errs2\<rparr>, n)"
    by (simp add: scan_file_unfold)
  with m show "\<exists>msg. scan_file f (b, n) = (b\<lparr>errors := errors b @ [msg]\<rparr>, n)" by blast
next
  assume "duplicates (fst (scan_file f (b, n))) \<noteq> duplicates b"
  then show "\<exists>content md existing. read_text f = Inr content \<and> builder_parse content = Some md
           \<and> md_has md (ustr ''doc_key'')
           \<and> fst (validate_frontmatter md f (errors b))
           \<and> map_of (registry b) (md_get md (ustr ''doc_key'')) = Some existing
           \<and> duplicates (fst (scan_file f (b, n)))
               = duplicates b @ [(md_get md (ustr ''doc_key''), dr_path existing, rel_path f)]"
    by (rule scan_file_duplicates_changed)
qed

text \<open>
  The theorem at a registry that holds \<open>policy.retention\<close>: a second claimant with the
  semver \<open>2.1\<close> is an error and no duplicate; one with a valid header is a duplicate.
\<close>

theorem validation_precedes_duplicate_check_witness:
  "(\<exists>msg. scan_file retention_short (one_registered, 1)
       = (one_registered\<lparr>errors := errors one_registered @ [msg]\<rparr>, 1))
   \<and> map_of (registry one_registered) (Some (ustr ''policy.retention'')) \<noteq> None
   \<and> duplicates (fst (scan_file retention_b (one_registered, 1))) \<noteq> duplicates one_registered
   \<and> (\<exists>content md. read_text retention_b = Inr content \<and> builder_parse content = Some md
         \<and> fst (validate_frontmatter md retention_b (errors one_registered)))"
proof -
  let ?md = "[(ustr ''doc_key'', Some (ustr ''policy.retention'')), (ustr ''semver'', Some (ustr ''2.1'')),
   (ustr ''status'', Some (ustr ''active'')), (ustr ''effective_date'', Some (ustr ''2024-01-01'')),
   (ustr ''owner'', Some (ustr ''platform-team'')), (ustr ''contract_type'', Some (ustr ''policy''))]"
  have r: "read_text retention_short = Inr (header (ustr ''policy.retention'') (ustr ''2.1'') (ustr ''active''))"
    by (simp add: retention_short_def doc_at_def)
  have p: "builder_parse (header (ustr ''policy.retention'') (ustr ''2.1'') (ustr ''active'')) = Some ?md"
    by code_simp
  have h: "md_has ?md (ustr ''doc_key'')" by code_simp
  have k: "map_of (registry one_registered) (md_get ?md (ustr ''doc_key'')) \<noteq> None" by code_simp
  have k': "map_of (registry one_registered) (Some (ustr ''policy.retention'')) \<noteq> None" by code_simp
  have v: "\<not> fst (validate_frontmatter ?md retention_short (errors one_registered))" by code_simp
  have d: "duplicates (fst (scan_file retention_b (one_registered, 1))) \<noteq> duplicates one_registered"
    by code_simp
  note c = validation_precedes_duplicate_check
  from c [of retention_short "header (ustr ''policy.retention'') (ustr ''2.1'') (ustr ''active'')" ?md one_registered 1] r p h k v
  have 1: "\<exists>msg. scan_file retention_short (one_registered, 1)
       = (one_registered\<lparr>errors := errors one_registered @ [msg]\<rparr>, 1)" by blast
  from c [of retention_b _ _ one_registered 1] d
  have 2: "\<exists>content md. read_text retention_b = Inr content \<and> builder_parse content = Some md
         \<and> fst (validate_frontmatter md retention_b (errors one_registered))" by blast
  from 1 2 k' d show ?thesis by blast
qed

section \<open>Duplicate keys in the builder's scan\<close>

lemma validate_fst_indep:
  "fst (validate_frontmatter md f errs) = fst (validate_frontmatter md f [])"
  by (simp add: validate_frontmatter_def Let_def)

lemma validate_snd_append:
  "snd (validate_frontmatter md f errs) = errs @ snd (validate_frontmatter md f [])"
  by (simp add: validate_frontmatter_def Let_def)

lemma scan_file_valid:
  assumes "valid_header f = Some md"
  shows "scan_file f (b, n) =
     (case map_of (registry b) (md_get md (ustr ''doc_key'')) of
        Some existing \<Rightarrow>
          (b\<lparr>duplicates := duplicates b @ [(md_get md (ustr ''doc_key''), dr_path existing, rel_path f)]\<rparr>, n)
      | None \<Rightarrow> (b\<lparr>registry := registry b @ [(md_get md (ustr ''doc_key''), make_record md f)]\<rparr>, n + 1))"
proof -
  from assms obtain content where c: "read_text f = Inr content" "builder_parse content = Some md"
    "md_has md (ustr ''doc_key'')" "fst (validate_frontmatter md f [])"
    by (auto simp: valid_header_def split: sum.splits option.splits if_splits)
  obtain ok errs2 where v: "validate_frontmatter md f (errors b) = (ok, errs2)"
    by (cases "validate_frontmatter md f (errors b)")
  from c(4) v have ok: "ok" using validate_fst_indep [of md f "errors b"] by simp
  with v have "errs2 = errors b" using validate_True_errors [of md f "errors b" errs2] by simp
  with c v ok show ?thesis
    by (simp add: scan_file_unfold split: option.splits)
qed

lemma scan_file_invalid:
  assumes "valid_header f = None"
  shows "scan_file f (b, n) = (b\<lparr>errors := errors b @ file_errors f\<rparr>, n)"
proof (cases "read_text f")
  case (Inl e)
  then show ?thesis
    by (simp add: scan_file_def file_errors_def builder_extract_frontmatter_def new_builder_def)
next
  case (Inr content)
  show ?thesis
  proof (cases "builder_parse content")
    case None
    with Inr show ?thesis
      by (simp add: scan_file_def file_errors_def builder_extract_frontmatter_def new_builder_def)
  next
    case (Some md)
    show ?thesis
    proof (cases "md_has md (ustr ''doc_key'')")
      case False
      with Inr Some show ?thesis
        by (simp add: scan_file_def file_errors_def builder_extract_frontmatter_def new_builder_def)
    next
      case True
      with assms Inr Some have nv: "\<not> fst (validate_frontmatter md f [])"
        by (simp add: valid_header_def split: if_splits)
      then have nv': "\<not> fst (validate_frontmatter md f (errors b))"
        using validate_fst_indep [of md f "errors b"] by simp
      have s: "snd (validate_frontmatter md f (errors b)) = errors b @ snd (validate_frontmatter md f [])"
        by (rule validate_snd_append)
      from Inr Some True nv nv' s show ?thesis
        by (cases "validate_frontmatter md f []"; cases "validate_frontmatter md f (errors b)")
          (simp add: scan_file_unfold file_errors_def new_builder_def)
    qed
  qed
qed

lemma with_key_append [simp]: "with_key k (xs @ ys) = with_key k xs @ with_key k ys"
  by (simp add: with_key_def)

lemma map_of_with_key: "map_of xs k = map_of (with_key k xs) k"
  by (induction xs) (auto simp: with_key_def)

lemma scan_file_other_key:
  assumes "\<not> claims f k"
  shows "with_key k (registry (fst (scan_file f (b, n)))) = with_key k (registry b)
       \<and> with_key k (duplicates (fst (scan_file f (b, n)))) = with_key k (duplicates b)"
proof (cases "valid_header f")
  case None
  then show ?thesis by (simp add: scan_file_invalid)
next
  case (Some md)
  with assms have "md_get md (ustr ''doc_key'') \<noteq> k" by (simp add: claims_def)
  with Some show ?thesis
    by (simp add: scan_file_valid with_key_def split: option.splits)
qed

lemma scan_files_Nil [simp]: "scan_files [] s = s"
  by (simp add: scan_files_def)

lemma scan_files_Cons [simp]: "scan_files (f # fs) s = scan_files fs (scan_file f s)"
  by (simp add: scan_files_def)

lemma scan_files_append [simp]: "scan_files (fs @ gs) s = scan_files gs (scan_files fs s)"
  by (simp add: scan_files_def)

lemma scan_files_other_keys:
  assumes "\<forall>f\<in>set fs. \<not> claims f k"
  shows "with_key k (registry (fst (scan_files fs s))) = with_key k (registry (fst s))
       \<and> with_key k (duplicates (fst (scan_files fs s))) = with_key k (duplicates (fst s))"
  using assms
proof (induction fs arbitrary: s)
  case Nil
  then show ?case by simp
next
  case (Cons f fs)
  obtain b n where s: "s = (b, n)" by (cases s)
  from Cons.prems have "\<not> claims f k" by simp
  from scan_file_other_key [OF this, of b n] Cons.IH [of "scan_file f s"] Cons.prems s
  show ?case by simp
qed

text \<open>
  Claim C1. The tree's documents, in the order the scan meets them, contain two documents
  \<open>f1\<close> and \<open>f2\<close> with valid headers that declare the key \<open>k\<close>, and no other document
  claims \<open>k\<close>. Then the registry's only entry for \<open>k\<close> is the record made from \<open>f1\<close>, the
  duplicates list has exactly one tuple for \<open>k\<close>, which is \<open>k\<close> with the path of \<open>f1\<close>
  and the path of \<open>f2\<close>, and \<open>report_status\<close> is false.
\<close>

theorem first_claimant_kept:
  assumes tree: "docs_files t @ plans_files t = A @ [f1] @ B @ [f2] @ C"
    and h1: "valid_header f1 = Some md1" and k1: "md_get md1 (ustr ''doc_key'') = k"
    and h2: "valid_header f2 = Some md2" and k2: "md_get md2 (ustr ''doc_key'') = k"
    and others: "\<forall>f\<in>set (A @ B @ C). \<not> claims f k"
  shows "with_key k (registry (fst (scan_documents new_builder t))) = [(k, make_record md1 f1)]
       \<and> with_key k (duplicates (fst (scan_documents new_builder t))) = [(k, rel_path f1, rel_path f2)]
       \<and> \<not> report_status (fst (scan_documents new_builder t))"
proof -
  define s0 where "s0 = scan_files A (new_builder, 0)"
  define s1 where "s1 = scan_file f1 s0"
  define s2 where "s2 = scan_files B s1"
  define s3 where "s3 = scan_file f2 s2"
  define s4 where "s4 = scan_files C s3"
  have run: "scan_documents new_builder t = s4"
  proof -
    have "scan_documents new_builder t = scan_files (docs_files t @ plans_files t) (new_builder, 0)"
      by (simp add: scan_documents_def)
    also have "\<dots> = s4"
      unfolding tree by (simp add: s0_def s1_def s2_def s3_def s4_def)
    finally show ?thesis .
  qed
  from others have oA: "\<forall>f\<in>set A. \<not> claims f k" and oB: "\<forall>f\<in>set B. \<not> claims f k"
    and oC: "\<forall>f\<in>set C. \<not> claims f k" by auto
  have r0: "with_key k (registry (fst s0)) = []" and d0: "with_key k (duplicates (fst s0)) = []"
    using scan_files_other_keys [OF oA, of "(new_builder, 0)"]
    by (simp_all add: s0_def new_builder_def with_key_def)
  from r0 have m0: "map_of (registry (fst s0)) k = None"
    using map_of_with_key [of "registry (fst s0)" k] by simp
  have r1: "with_key k (registry (fst s1)) = [(k, make_record md1 f1)]"
    and d1: "with_key k (duplicates (fst s1)) = []"
    using scan_file_valid [OF h1, of "fst s0" "snd s0"] m0 r0 d0 k1
    by (simp_all add: s1_def with_key_def)
  have r2: "with_key k (registry (fst s2)) = [(k, make_record md1 f1)]"
    and d2: "with_key k (duplicates (fst s2)) = []"
    using scan_files_other_keys [OF oB, of s1] r1 d1 by (simp_all add: s2_def)
  from r2 have m2: "map_of (registry (fst s2)) k = Some (make_record md1 f1)"
    using map_of_with_key [of "registry (fst s2)" k] by simp
  have r3: "with_key k (registry (fst s3)) = [(k, make_record md1 f1)]"
    and d3: "with_key k (duplicates (fst s3)) = [(k, rel_path f1, rel_path f2)]"
    using scan_file_valid [OF h2, of "fst s2" "snd s2"] m2 r2 d2 k2
    by (simp_all add: s3_def with_key_def make_record_def)
  have r4: "with_key k (registry (fst s4)) = [(k, make_record md1 f1)]"
    and d4: "with_key k (duplicates (fst s4)) = [(k, rel_path f1, rel_path f2)]"
    using scan_files_other_keys [OF oC, of s3] r3 d3 by (simp_all add: s4_def)
  from d4 have "duplicates (fst s4) \<noteq> []" by (auto simp: with_key_def)
  then have "\<not> report_status (fst s4)" by (simp add: report_status_def)
  with r4 d4 run show ?thesis by simp
qed

text \<open>
  The theorem on the example tree: \<open>docs/a.md\<close> and \<open>docs/b.md\<close> both declare
  \<open>policy.retention\<close>; \<open>docs/c.md\<close> declares it too, with a semver that fails validation.
\<close>

theorem first_claimant_kept_witness:
  "with_key (Some (ustr ''policy.retention'')) (registry (fst (scan_documents new_builder example_tree)))
     = [(Some (ustr ''policy.retention''), make_record (retention_md (ustr ''2.1.0'')) retention_a)]
   \<and> with_key (Some (ustr ''policy.retention'')) (duplicates (fst (scan_documents new_builder example_tree)))
     = [(Some (ustr ''policy.retention''), ustr ''docs/a.md'', ustr ''docs/b.md'')]
   \<and> \<not> report_status (fst (scan_documents new_builder example_tree))"
proof -
  have tree: "docs_files example_tree @ plans_files example_tree
      = [unversioned_doc] @ [retention_a] @ [retention_short] @ [retention_b] @ [access_doc]"
    by (simp add: example_tree_def)
  have h1: "valid_header retention_a = Some (retention_md (ustr ''2.1.0''))" by code_simp
  have h2: "valid_header retention_b = Some (retention_md (ustr ''3.0.0''))" by code_simp
  have k1: "md_get (retention_md (ustr ''2.1.0'')) (ustr ''doc_key'') = Some (ustr ''policy.retention'')" by code_simp
  have k2: "md_get (retention_md (ustr ''3.0.0'')) (ustr ''doc_key'') = Some (ustr ''policy.retention'')" by code_simp
  have o1: "\<not> claims unversioned_doc (Some (ustr ''policy.retention''))" by code_simp
  have o2: "\<not> claims retention_short (Some (ustr ''policy.retention''))" by code_simp
  have o3: "\<not> claims access_doc (Some (ustr ''policy.retention''))" by code_simp
  from o1 o2 o3 have others: "\<forall>f\<in>set ([unversioned_doc] @ [retention_short] @ [access_doc]).
      \<not> claims f (Some (ustr ''policy.retention''))" by simp
  have p: "rel_path retention_a = (ustr ''docs/a.md'')" "rel_path retention_b = (ustr ''docs/b.md'')"
    by (simp_all add: retention_a_def retention_b_def doc_at_def)
  from first_claimant_kept [OF tree h1 k1 h2 k2 others] p show ?thesis by simp
qed

section \<open>The extractor's projections and count\<close>

lemma md_get_asdict_semver: "md_get (asdict_version v) (ustr ''semver'') = dv_semver v"
  by (simp add: md_get_def asdict_version_def)

text \<open>
  Claim C6. For every state of the extractor, the simple mapping has the keys of the full
  mapping, in the same order, and under every key its value is the \<open>semver\<close> field of
  the full mapping's entry.
\<close>

theorem simple_dict_matches_full:
  "map fst (to_simple_dict vs) = map fst (to_dict vs)
   \<and> (\<forall>k. map_of (to_simple_dict vs) k
          = map_option (\<lambda>fields. md_get fields (ustr ''semver'')) (map_of (to_dict vs) k))"
proof
  show "map fst (to_simple_dict vs) = map fst (to_dict vs)"
    by (simp add: to_simple_dict_def to_dict_def case_prod_unfold)
next
  have "map_of (to_simple_dict vs) k
          = map_option (\<lambda>fields. md_get fields (ustr ''semver'')) (map_of (to_dict vs) k)" for k
    by (induction vs) (auto simp: to_simple_dict_def to_dict_def md_get_def asdict_version_def)
  then show "\<forall>k. map_of (to_simple_dict vs) k
          = map_option (\<lambda>fields. md_get fields (ustr ''semver'')) (map_of (to_dict vs) k)" by blast
qed

lemma extractor_scan_file_keys:
  "map fst (fst (extractor_scan_file sf f (vs, c)))
     = (case qualifying_key sf f of
          None \<Rightarrow> map fst vs
        | Some k \<Rightarrow> if k \<in> set (map fst vs) then map fst vs else map fst vs @ [k])"
  by (auto simp: extractor_scan_file_def qualifying_key_def update_keys split: option.splits)

lemma extractor_scan_file_count:
  "snd (extractor_scan_file sf f (vs, c))
     = c + (case qualifying_key sf f of None \<Rightarrow> 0 | Some k \<Rightarrow> 1)"
  by (auto simp: extractor_scan_file_def qualifying_key_def split: option.splits)

lemma extractor_scan_files_inv:
  assumes "distinct (map fst (fst s))"
  shows "distinct (map fst (fst (extractor_scan_files sf fs s)))
       \<and> set (map fst (fst (extractor_scan_files sf fs s)))
           = set (map fst (fst s)) \<union> set (List.map_filter (qualifying_key sf) fs)
       \<and> snd (extractor_scan_files sf fs s)
           = snd s + length (List.map_filter (qualifying_key sf) fs)"
  using assms
proof (induction fs arbitrary: s)
  case Nil
  then show ?case by (simp add: extractor_scan_files_def map_filter_simps)
next
  case (Cons f fs)
  obtain vs c where s: "s = (vs, c)" by (cases s)
  let ?s1 = "extractor_scan_file sf f (vs, c)"
  have k: "map fst (fst ?s1)
     = (case qualifying_key sf f of
          None \<Rightarrow> map fst vs
        | Some k \<Rightarrow> if k \<in> set (map fst vs) then map fst vs else map fst vs @ [k])"
    by (rule extractor_scan_file_keys)
  have n: "snd ?s1 = c + (case qualifying_key sf f of None \<Rightarrow> 0 | Some k \<Rightarrow> 1)"
    by (rule extractor_scan_file_count)
  from Cons.prems s k have d: "distinct (map fst (fst ?s1))"
    by (auto split: option.splits)
  have step: "extractor_scan_files sf (f # fs) s = extractor_scan_files sf fs ?s1"
    by (simp add: extractor_scan_files_def s)
  from Cons.IH [OF d] k n s show ?case
    unfolding step by (auto simp: map_filter_simps split: option.splits)
qed

lemma extractor_scan_documents_flat:
  "extractor_scan_documents sf t vs = extractor_scan_files sf (docs_files t @ plans_files t) (vs, 0)"
  by (simp add: extractor_scan_documents_def extractor_scan_files_def)

lemma extractor_count_vs_entries:
  "length (fst (extractor_scan_documents sf t [])) \<le> snd (extractor_scan_documents sf t [])
   \<and> (length (fst (extractor_scan_documents sf t [])) = snd (extractor_scan_documents sf t [])
      \<longleftrightarrow> distinct (qualifying_keys sf t))"
proof -
  let ?r = "extractor_scan_documents sf t []"
  let ?q = "qualifying_keys sf t"
  have inv: "distinct (map fst (fst ?r))" "set (map fst (fst ?r)) = set ?q" "snd ?r = length ?q"
    using extractor_scan_files_inv [of "([], 0)" sf "docs_files t @ plans_files t"]
    by (simp_all add: extractor_scan_documents_flat qualifying_keys_def)
  have "length (fst ?r) = length (map fst (fst ?r))" by simp
  also have "\<dots> = card (set (map fst (fst ?r)))"
    using inv(1) by (rule distinct_card [symmetric])
  also have "\<dots> = card (set ?q)" using inv(2) by simp
  finally have l: "length (fst ?r) = card (set ?q)" .
  have "card (set ?q) \<le> length ?q" by (rule card_length)
  moreover have "card (set ?q) = length ?q \<longleftrightarrow> distinct ?q"
    using card_distinct distinct_card by blast
  ultimately show ?thesis using l inv(3) by simp
qed

text \<open>
  Claim C10. The count that the extractor's scan returns, from a fresh extractor, is the
  number of qualifying documents; it is at least the number of entries of the versions
  mapping, and equal to it exactly when the qualifying documents have distinct keys. A
  captured snapshot holds that count as \<open>policy_count\<close> and the mapping's entries as
  \<open>active_policies\<close>, so the same holds between them.
\<close>

theorem count_at_least_entries:
  "snd (extractor_scan_documents sf t []) = length (qualifying_keys sf t)
   \<and> length (fst (extractor_scan_documents sf t [])) \<le> snd (extractor_scan_documents sf t [])
   \<and> (length (fst (extractor_scan_documents sf t [])) = snd (extractor_scan_documents sf t [])
      \<longleftrightarrow> distinct (qualifying_keys sf t))
   \<and> (capture_policy_snapshot run_id now t rd = Inr (snap, rd') \<longrightarrow>
        snap_policy_count snap = snd (extractor_scan_documents (Some (ustr ''active'')) t [])
      \<and> length (snap_active_policies snap) \<le> snap_policy_count snap
      \<and> (length (snap_active_policies snap) = snap_policy_count snap
         \<longleftrightarrow> distinct (qualifying_keys (Some (ustr ''active'')) t)))"
proof (intro conjI impI)
  show "snd (extractor_scan_documents sf t []) = length (qualifying_keys sf t)"
    using extractor_scan_files_inv [of "([], 0)" sf "docs_files t @ plans_files t"]
    by (simp add: extractor_scan_documents_flat qualifying_keys_def)
next
  show "length (fst (extractor_scan_documents sf t [])) \<le> snd (extractor_scan_documents sf t [])"
    using extractor_count_vs_entries [of sf t] by simp
next
  show "length (fst (extractor_scan_documents sf t [])) = snd (extractor_scan_documents sf t [])
      \<longleftrightarrow> distinct (qualifying_keys sf t)"
    using extractor_count_vs_entries [of sf t] by simp
next
  assume c: "capture_policy_snapshot run_id now t rd = Inr (snap, rd')"
  let ?r = "extractor_scan_documents (Some (ustr ''active'')) t []"
  from c have s: "snap_policy_count snap = snd ?r"
    "length (snap_active_policies snap) = length (fst ?r)"
    by (auto simp: capture_policy_snapshot_def Let_def to_simple_dict_def
        split: prod.splits sum.splits)
  from s show "snap_policy_count snap = snd ?r" by simp
  from s show "length (snap_active_policies snap) \<le> snap_policy_count snap"
    using extractor_count_vs_entries [of "Some (ustr ''active'')" t] by simp
  from s show "length (snap_active_policies snap) = snap_policy_count snap
         \<longleftrightarrow> distinct (qualifying_keys (Some (ustr ''active'')) t)"
    using extractor_count_vs_entries [of "Some (ustr ''active'')" t] by simp
qed

text \<open>
  The theorem on the example tree, where three active documents declare
  \<open>policy.retention\<close>: the count is 4 and the mapping has 2 entries.
\<close>

theorem count_at_least_entries_witness:
  "snd (extractor_scan_documents (Some (ustr ''active'')) example_tree []) = 4
   \<and> length (fst (extractor_scan_documents (Some (ustr ''active'')) example_tree [])) < 4
   \<and> (\<exists>snap rd'. capture_policy_snapshot (ustr ''R1'') (ustr ''t0'') example_tree empty_run_dir = Inr (snap, rd')
        \<and> length (snap_active_policies snap) < snap_policy_count snap)"
proof -
  have q: "qualifying_keys (Some (ustr ''active'')) example_tree
      = [Some (ustr ''policy.retention''), Some (ustr ''policy.retention''), Some (ustr ''policy.retention''),
         Some (ustr ''policy.access'')]"
    by code_simp
  have "isl (capture_policy_snapshot (ustr ''R1'') (ustr ''t0'') example_tree empty_run_dir) = False"
    by code_simp
  then obtain snap rd' where
    c: "capture_policy_snapshot (ustr ''R1'') (ustr ''t0'') example_tree empty_run_dir = Inr (snap, rd')"
    by (cases "capture_policy_snapshot (ustr ''R1'') (ustr ''t0'') example_tree empty_run_dir") auto
  from count_at_least_entries [of "Some (ustr ''active'')" example_tree "(ustr ''R1'')" "(ustr ''t0'')" empty_run_dir snap rd']
    q c
  have "snd (extractor_scan_documents (Some (ustr ''active'')) example_tree []) = 4"
    and "length (fst (extractor_scan_documents (Some (ustr ''active'')) example_tree [])) < 4"
    and "length (snap_active_policies snap) < snap_policy_count snap"
    by auto
  with c show ?thesis by blast
qed

section \<open>Finalizing a run\<close>

lemma update_fresh_key:
  "k \<notin> set (map fst al) \<Longrightarrow> AList.update k v al = al @ [(k, v)]"
  by (induction al) auto

lemma initialize_run_metadata:
  assumes "initialize_run run_id now1 now2 t rd0 = Inr (m, rd)"
  shows "\<exists>md. metadata_file rd = Some (JObj md) \<and> map fst md = metadata_fields"
  using assms
  by (auto simp: initialize_run_def Let_def metadata_fields_def split: sum.splits prod.splits)

text \<open>
  Claim C8. The run's metadata file holds an object with the fields \<open>run_id\<close>,
  \<open>start_time\<close>, \<open>policies_in_force\<close> and \<open>policy_count\<close>, as \<open>initialize_run\<close> writes
  it. Then \<open>finalize_run\<close> succeeds; the metadata file holds the same four fields with
  the same values, followed by \<open>end_time\<close> and \<open>success\<close>; the ledger is the old ledger
  followed by one \<open>run_complete\<close> event; nothing else in the run directory changes.
\<close>

theorem finalize_extends_metadata:
  assumes "metadata_file rd = Some (JObj md)" and "map fst md = metadata_fields"
  shows "finalize_run run_id now success rd =
     Inr (rd\<lparr>metadata_file :=
               Some (JObj (md @ [(ustr ''end_time'', JStr now), (ustr ''success'', JBool success)])),
             ledger_file :=
               ledger_file rd @ [JObj [(ustr ''run_id'', JStr run_id), (ustr ''timestamp'', JStr now),
                                       (ustr ''event'', JStr (ustr ''run_complete'')),
                                       (ustr ''success'', JBool success)]]\<rparr>)"
proof -
  from assms(2) have 1: "AList.update (ustr ''end_time'') (JStr now) md = md @ [(ustr ''end_time'', JStr now)]"
    by (intro update_fresh_key) (simp add: metadata_fields_def)
  from assms(2) have 2: "AList.update (ustr ''success'') (JBool success) (md @ [(ustr ''end_time'', JStr now)])
      = md @ [(ustr ''end_time'', JStr now), (ustr ''success'', JBool success)]"
    using update_fresh_key [of "(ustr ''success'')" "md @ [(ustr ''end_time'', JStr now)]" "JBool success"]
    by (simp add: metadata_fields_def)
  from assms(1) 1 2 show ?thesis
    by (simp add: finalize_run_def append_to_ledger_def run_complete_event_def)
qed

text \<open>
  The theorem on the run directory that \<open>initialize_run\<close> leaves for the example tree.
\<close>

theorem finalize_extends_metadata_witness:
  "\<exists>m rd md. initialize_run (ustr ''R1'') (ustr ''t0'') (ustr ''t1'') example_tree empty_run_dir = Inr (m, rd)
     \<and> metadata_file rd = Some (JObj md)
     \<and> map fst md = metadata_fields
     \<and> length (ledger_file rd) = 1
     \<and> finalize_run (ustr ''R1'') (ustr ''t2'') True rd =
         Inr (rd\<lparr>metadata_file :=
                   Some (JObj (md @ [(ustr ''end_time'', JStr (ustr ''t2'')), (ustr ''success'', JBool True)])),
                 ledger_file :=
                   ledger_file rd @ [JObj [(ustr ''run_id'', JStr (ustr ''R1'')), (ustr ''timestamp'', JStr (ustr ''t2'')),
                                           (ustr ''event'', JStr (ustr ''run_complete'')),
                                           (ustr ''success'', JBool True)]]\<rparr>)"
proof -
  have "isl (initialize_run (ustr ''R1'') (ustr ''t0'') (ustr ''t1'') example_tree empty_run_dir) = False"
    by code_simp
  then obtain m rd where
    i: "initialize_run (ustr ''R1'') (ustr ''t0'') (ustr ''t1'') example_tree empty_run_dir = Inr (m, rd)"
    by (cases "initialize_run (ustr ''R1'') (ustr ''t0'') (ustr ''t1'') example_tree empty_run_dir") auto
  from initialize_run_metadata [OF i] obtain md where
    md: "metadata_file rd = Some (JObj md)" "map fst md = metadata_fields" by blast
  from i have l: "length (ledger_file rd) = 1"
    by (auto simp: initialize_run_def capture_policy_snapshot_def append_to_ledger_def
        empty_run_dir_def Let_def split: sum.splits prod.splits)
  from finalize_extends_metadata [OF md, of "(ustr ''R1'')" "(ustr ''t2'')" True] i md l
  show ?thesis by blast
qed

section \<open>The semver pattern\<close>














lemma not_digit_newline: "\<not> unicode_decimal newline"
  by (simp add: unicode_decimal_def decimal_zeros_def newline_def)

lemma semver_shape_no_newline: "semver_shape s \<Longrightarrow> newline \<notin> set s"
  using not_digit_newline
  by (auto simp: semver_shape_def digits_def list_all_iff newline_def dot_def)

lemma semver_shape_last: "semver_shape s \<Longrightarrow> s \<noteq> [] \<and> unicode_decimal (last s)"
  by (auto simp: semver_shape_def digits_def list_all_iff)



section \<open>Values of a parsed header\<close>

lemma py_split_char_nonempty: "py_split_char d s \<noteq> []"
  by (induction s) (auto split: list.splits)


lemma set_strip_chars: "set (strip_chars P s) \<subseteq> set s"
proof
  fix x assume "x \<in> set (strip_chars P s)"
  then have "x \<in> set (dropWhile P (rev (dropWhile P s)))" by (simp add: strip_chars_def)
  then have "x \<in> set (rev (dropWhile P s))" by (rule set_dropWhileD)
  then have "x \<in> set (dropWhile P s)" by simp
  then show "x \<in> set s" by (rule set_dropWhileD)
qed

lemma set_tl_subset: "set (tl xs) \<subseteq> set xs"
  by (cases xs) auto



lemma set_split1_snd: "set (snd (py_split1 d s)) \<subseteq> set s"
proof
  fix x assume "x \<in> set (snd (py_split1 d s))"
  then have "x \<in> set (tl (dropWhile (\<lambda>x. x \<noteq> d) s))" by (simp add: py_split1_def)
  with set_tl_subset [of "dropWhile (\<lambda>x. x \<noteq> d) s"]
  have "x \<in> set (dropWhile (\<lambda>x. x \<noteq> d) s)" by (rule subsetD)
  then show "x \<in> set s" by (rule set_dropWhileD)
qed







section \<open>Validation of the semver\<close>








section \<open>The persisted registry does not depend on the traversal order\<close>


lemma scan_file_entry:
  "scan_file f (b, n) =
     (case builder_entry f of
        None \<Rightarrow> (b\<lparr>errors := errors b @ file_errors f\<rparr>, n)
      | Some (k, r) \<Rightarrow>
          (case map_of (registry b) k of
             Some existing \<Rightarrow> (b\<lparr>duplicates := duplicates b @ [(k, dr_path existing, rel_path f)]\<rparr>, n)
           | None \<Rightarrow> (b\<lparr>registry := registry b @ [(k, r)]\<rparr>, n + 1)))"
proof (cases "valid_header f")
  case None
  then show ?thesis by (simp add: builder_entry_def scan_file_invalid)
next
  case (Some md)
  then show ?thesis by (simp add: builder_entry_def scan_file_valid split: option.splits)
qed






lemma scan_file_errors:
  "errors (fst (scan_file f s)) = errors (fst s) @ (case builder_entry f of None \<Rightarrow> file_errors f | Some e \<Rightarrow> [])"
  by (cases s) (auto simp: scan_file_entry split: option.splits)








text \<open>
  The encoder on characters outside ASCII: for the string of U+0661, U+1F600, U+007F and
  U+0080 it prints what \<open>json.dumps\<close> prints, with a surrogate pair for the second.
\<close>

lemma json_string_non_ascii:
  "json_string [0x661, 0x1F600, 0x7F, 0x80]
     = [dquote] @ [backslash] @ ustr ''u0661'' @ [backslash] @ ustr ''ud83d''
       @ [backslash] @ ustr ''ude00'' @ [backslash] @ ustr ''u007f''
       @ [backslash] @ ustr ''u0080'' @ [dquote]"
  by code_simp

section \<open>The exit status and the written file\<close>

lemma main_check_only:
  "main True t = \<lparr>exit_status = (if report_status (fst (scan_documents new_builder t)) then 0 else 1),
                  output_file = Untouched\<rparr>"
  by (cases "scan_documents new_builder t") (simp add: main_def)

lemma main_failure:
  "\<not> report_status (fst (scan_documents new_builder t)) \<Longrightarrow>
   main check_only t = \<lparr>exit_status = 1, output_file = Untouched\<rparr>"
  by (cases "scan_documents new_builder t") (simp add: main_def)

lemma main_success_write:
  "report_status (fst (scan_documents new_builder t)) \<Longrightarrow>
   main False t =
     (case save_registry (fst (scan_documents new_builder t)) of
        Inl e \<Rightarrow> \<lparr>exit_status = 1, output_file = Incomplete\<rparr>
      | Inr text \<Rightarrow> \<lparr>exit_status = 0, output_file = Written text\<rparr>)"
  by (cases "scan_documents new_builder t") (simp add: main_def)

lemma report_status_iff: "report_status b \<longleftrightarrow> duplicates b = [] \<and> errors b = []"
  by (simp add: report_status_def)

lemma save_registry_raises_iff:
  "(\<exists>e. save_registry b = Inl e)
     \<longleftrightarrow> None \<in> set (map fst (registry b)) \<and> 2 \<le> length (registry b)"
proof -
  have "map fst (map (\<lambda>(doc_key, r). (doc_key, asdict_record r)) xs) = map fst xs"
    for xs :: "(py_value \<times> document_record) list"
    by (induction xs) auto
  then have "set (map fst (map (\<lambda>(doc_key, r). (doc_key, asdict_record r)) (registry b)))
      = set (map fst (registry b))" by (simp only:)
  then show ?thesis
    by (auto simp: save_registry_def sort_items_def simp del: set_map)
qed

text \<open>
  Where no registered key is null, or the registry has at most one entry, the entry
  point behaves as the exit-status contract says.
\<close>

lemma main_contract_when_sortable:
  assumes "None \<notin> set (map fst (registry (fst (scan_documents new_builder t))))
           \<or> length (registry (fst (scan_documents new_builder t))) < 2"
  shows "(exit_status (main check_only t) = 0
            \<longleftrightarrow> duplicates (fst (scan_documents new_builder t)) = []
                \<and> errors (fst (scan_documents new_builder t)) = [])
       \<and> ((\<exists>text. output_file (main check_only t) = Written text)
            \<longleftrightarrow> duplicates (fst (scan_documents new_builder t)) = []
                \<and> errors (fst (scan_documents new_builder t)) = [] \<and> \<not> check_only)
       \<and> ((\<forall>text. output_file (main check_only t) \<noteq> Written text)
            \<longrightarrow> output_file (main check_only t) = Untouched)"
proof -
  let ?b = "fst (scan_documents new_builder t)"
  from assms have "\<not> (\<exists>e. save_registry ?b = Inl e)"
    unfolding save_registry_raises_iff by auto
  then obtain js where s: "save_registry ?b = Inr js"
    by (cases "save_registry ?b") auto
  show ?thesis
  proof (cases "report_status ?b")
    case False
    then show ?thesis
      by (auto simp: main_failure report_status_iff)
  next
    case True
    show ?thesis
    proof (cases check_only)
      case True
      with \<open>report_status ?b\<close> show ?thesis
        by (auto simp: main_check_only report_status_iff)
    next
      case False
      with \<open>report_status ?b\<close> s show ?thesis
        by (auto simp: main_success_write report_status_iff)
    qed
  qed
qed

text \<open>
  Claim C2, at the input where the code leaves it. A document whose \<open>doc_key\<close> is
  \<open>null\<close> passes validation and is registered under the key \<open>None\<close>, beside a document
  registered under \<open>policy.access\<close>. The scan ends with no duplicates and no errors and
  \<open>report_status\<close> is true; sorting the two keys raises \<open>TypeError\<close>, so without
  check-only mode the process ends with status 1 and the output file is left
  incomplete. With check-only mode the status is 0.
\<close>

theorem main_null_key_exit_status:
  "scan_documents new_builder null_key_tree
     = (\<lparr>registry = [(None, null_key_record), (Some (ustr ''policy.access''), access_record)],
         duplicates = [], errors = []\<rparr>, 2)
   \<and> report_status (fst (scan_documents new_builder null_key_tree))
   \<and> save_registry (fst (scan_documents new_builder null_key_tree)) = Inl TypeError
   \<and> main False null_key_tree = \<lparr>exit_status = 1, output_file = Incomplete\<rparr>
   \<and> main True null_key_tree = \<lparr>exit_status = 0, output_file = Untouched\<rparr>"
  by code_simp

section \<open>The two header parsers\<close>

lemma strip_chars_split:
  assumes "\<not> P c"
  shows "strip_chars P (a @ c # b) = dropWhile P a @ c # rev (dropWhile P (rev b))"
proof -
  have "dropWhile P (a @ c # b) = dropWhile P a @ c # b"
    using assms by (rule dropWhile_append3)
  moreover have "dropWhile P (rev b @ c # rev (dropWhile P a)) = dropWhile P (rev b) @ c # rev (dropWhile P a)"
    using assms by (rule dropWhile_append3)
  ultimately show ?thesis by (simp add: strip_chars_def)
qed

lemma dropWhile_rev_commute:
  "dropWhile P (rev (dropWhile P (rev b))) = rev (dropWhile P (rev (dropWhile P b)))"
proof (cases "dropWhile P b")
  case Nil
  then have all: "\<forall>x\<in>set b. P x" by simp
  then have r: "dropWhile P (rev b) = []" by simp
  show ?thesis unfolding r Nil by simp
next
  case (Cons x m)
  then have nx: "\<not> P x" using hd_dropWhile [of P b] by auto
  have b: "b = takeWhile P b @ x # m" using Cons takeWhile_dropWhile_id [of P b] by simp
  let ?a = "takeWhile P b"
  have pa: "\<And>y. y \<in> set ?a \<Longrightarrow> P y" by (auto dest: set_takeWhileD)
  have "dropWhile P (rev (?a @ x # m)) = dropWhile P (rev m) @ x # rev ?a"
    using nx dropWhile_append3 [of P x "rev m" "rev ?a"] by simp
  then have "dropWhile P (rev (dropWhile P (rev (?a @ x # m))))
      = dropWhile P (?a @ x # rev (dropWhile P (rev m)))" by simp
  also have "\<dots> = dropWhile P (x # rev (dropWhile P (rev m)))"
    using pa by (rule dropWhile_append2)
  also have "\<dots> = x # rev (dropWhile P (rev m))" using nx by simp
  finally have l: "dropWhile P (rev (dropWhile P (rev b))) = x # rev (dropWhile P (rev m))"
    using b by simp
  have "dropWhile P (rev (x # m)) = dropWhile P (rev m) @ [x]"
    using nx dropWhile_append3 [of P x "rev m" "[]"] by simp
  then have r: "rev (dropWhile P (rev (dropWhile P b))) = x # rev (dropWhile P (rev m))"
    using Cons by simp
  from l r show ?thesis by simp
qed

lemma strip_chars_lstrip: "strip_chars P (dropWhile P a) = strip_chars P a"
  by (simp add: strip_chars_def dropWhile_idem)

lemma strip_chars_rstrip: "strip_chars P (rev (dropWhile P (rev b))) = strip_chars P b"
proof -
  have "strip_chars P (rev (dropWhile P (rev b)))
      = rev (dropWhile P (rev (dropWhile P (rev (dropWhile P (rev b))))))"
    by (simp add: strip_chars_def)
  also have "\<dots> = rev (dropWhile P (rev (rev (dropWhile P (rev (dropWhile P b))))))"
    by (simp only: dropWhile_rev_commute)
  also have "\<dots> = rev (dropWhile P (rev (dropWhile P b)))"
    by (simp add: dropWhile_idem)
  finally show ?thesis by (simp add: strip_chars_def)
qed

lemma split1_decompose:
  assumes "c \<notin> set a"
  shows "py_split1 c (a @ c # b) = (a, b)"
proof -
  from assms have na: "\<And>x. x \<in> set a \<Longrightarrow> x \<noteq> c" by auto
  have "takeWhile (\<lambda>x. x \<noteq> c) (a @ c # b) = a"
    using na by simp
  moreover have "dropWhile (\<lambda>x. x \<noteq> c) (a @ c # b) = c # b"
    using na by simp
  ultimately show ?thesis by (simp add: py_split1_def)
qed

lemma strip_before_split:
  assumes "\<not> P c" and "c \<in> set raw"
  shows "c \<in> set (strip_chars P raw)
       \<and> strip_chars P (fst (py_split1 c (strip_chars P raw))) = strip_chars P (fst (py_split1 c raw))
       \<and> strip_chars P (snd (py_split1 c (strip_chars P raw))) = strip_chars P (snd (py_split1 c raw))"
proof -
  from assms(2) obtain a b where raw: "raw = a @ c # b" and a: "c \<notin> set a"
    by (auto dest: split_list_first)
  have s: "strip_chars P raw = dropWhile P a @ c # rev (dropWhile P (rev b))"
    unfolding raw using assms(1) by (rule strip_chars_split)
  from a have a': "c \<notin> set (dropWhile P a)" by (auto dest: set_dropWhileD)
  have 1: "py_split1 c raw = (a, b)" unfolding raw using a by (rule split1_decompose)
  have 2: "py_split1 c (strip_chars P raw) = (dropWhile P a, rev (dropWhile P (rev b)))"
    unfolding s using a' by (rule split1_decompose)
  show ?thesis
    by (simp add: 1 2 strip_chars_lstrip strip_chars_rstrip) (simp add: s)
qed

lemma not_space_colon: "\<not> py_isspace colon"
  by (simp add: py_isspace_def colon_def)

lemma builder_parse_line_direct:
  "builder_parse_line md raw =
     (if colon \<in> set raw
      then AList.update (py_strip (fst (py_split1 colon raw)))
             (null_coerce (builder_unquote (py_strip (snd (py_split1 colon raw))))) md
      else md)"
proof (cases "colon \<in> set raw")
  case True
  from strip_before_split [of py_isspace "colon" raw, OF not_space_colon True] True show ?thesis
    by (simp add: builder_parse_line_def py_strip_def Let_def case_prod_unfold)
next
  case False
  have "set (py_strip raw) \<subseteq> set raw" unfolding py_strip_def by (rule set_strip_chars)
  with False have "colon \<notin> set (py_strip raw)" by auto
  with False show ?thesis by (simp add: builder_parse_line_def)
qed

lemma extractor_parse_line_direct:
  "extractor_parse_line md raw =
     (if colon \<in> set raw
      then AList.update (py_strip (fst (py_split1 colon raw)))
             (null_coerce (extractor_unquote (py_strip (snd (py_split1 colon raw))))) md
      else md)"
  by (simp add: extractor_parse_line_def Let_def case_prod_unfold)

lemma dropWhile_none: "\<forall>x\<in>set v. \<not> P x \<Longrightarrow> dropWhile P v = v"
  by (cases v) auto

lemma strip_chars_none: "\<forall>x\<in>set v. \<not> P x \<Longrightarrow> strip_chars P v = v"
  by (simp add: strip_chars_def dropWhile_none)

lemma builder_unquote_no_quotes:
  assumes "dquote \<notin> set v" and "squote \<notin> set v"
  shows "builder_unquote v = v"
proof (cases v)
  case Nil
  then show ?thesis by (simp add: builder_unquote_def py_startswith_def)
next
  case (Cons c cs)
  with assms have "c \<noteq> dquote" "c \<noteq> squote" by auto
  with Cons show ?thesis by (simp add: builder_unquote_def py_startswith_def)
qed

lemma extractor_unquote_no_quotes:
  assumes "dquote \<notin> set v" and "squote \<notin> set v"
  shows "extractor_unquote v = v"
proof -
  from assms(1) have "strip_chars (\<lambda>x. x = dquote) v = v"
    by (intro strip_chars_none) auto
  moreover from assms(2) have "strip_chars (\<lambda>x. x = squote) v = v"
    by (intro strip_chars_none) auto
  ultimately show ?thesis by (simp add: extractor_unquote_def py_strip_char_def)
qed

lemma parse_lines_agree_no_quotes:
  assumes "dquote \<notin> set raw" and "squote \<notin> set raw"
  shows "builder_parse_line md raw = extractor_parse_line md raw"
proof -
  let ?v = "py_strip (snd (py_split1 colon raw))"
  have "set ?v \<subseteq> set (snd (py_split1 colon raw))"
    unfolding py_strip_def by (rule set_strip_chars)
  also have "\<dots> \<subseteq> set raw" by (rule set_split1_snd)
  finally have "set ?v \<subseteq> set raw" .
  with assms have q: "dquote \<notin> set ?v" "squote \<notin> set ?v" by auto
  show ?thesis
    unfolding builder_parse_line_direct extractor_parse_line_direct
    by (simp add: builder_unquote_no_quotes [OF q] extractor_unquote_no_quotes [OF q])
qed

lemma py_partition_subset:
  "py_partition sep s = Some (a, b) \<Longrightarrow> set a \<subseteq> set s \<and> set b \<subseteq> set s"
proof (induction s arbitrary: a b)
  case Nil
  then show ?case by (simp split: if_splits)
next
  case (Cons c cs)
  show ?case
  proof (cases "py_startswith (c # cs) sep")
    case True
    with Cons.prems have "a = []" "b = drop (length sep) (c # cs)" by simp_all
    then show ?thesis using set_drop_subset [of "length sep" "c # cs"] by simp
  next
    case False
    with Cons.prems obtain a' where p: "py_partition sep cs = Some (a', b)" and a: "a = c # a'"
      by auto
    from Cons.IH [OF p] a show ?thesis by auto
  qed
qed

lemma frontmatter_block_subset:
  assumes "frontmatter_block content = Some block"
  shows "set block \<subseteq> set content"
proof -
  from assms obtain a r b c where p1: "py_partition (ustr ''---'') content = Some (a, r)"
    and p2: "py_partition (ustr ''---'') r = Some (b, c)" and blk: "block = b"
    by (auto simp: frontmatter_block_def py_split2_def Let_def split: if_splits option.splits)
  from py_partition_subset [OF p1] py_partition_subset [OF p2] blk show ?thesis by auto
qed

lemma py_split_char_subset: "\<forall>l\<in>set (py_split_char d s). set l \<subseteq> set s"
proof (induction s)
  case Nil
  show ?case by simp
next
  case (Cons c s)
  obtain p ps where pp: "py_split_char d s = p # ps"
    using py_split_char_nonempty [of d s] by (cases "py_split_char d s") auto
  with Cons.IH have ih: "set p \<subseteq> set s" "\<forall>l\<in>set ps. set l \<subseteq> set s" by simp_all
  show ?case
  proof (cases "c = d")
    case True
    with pp ih show ?thesis by auto
  next
    case False
    with pp ih show ?thesis by auto
  qed
qed

lemma foldl_agree:
  "\<forall>l\<in>set ls. \<forall>md. f md l = g md l \<Longrightarrow> foldl f md ls = foldl g md ls"
  by (induction ls arbitrary: md) simp_all

text \<open>
  The quote stripping is the only difference between the two parsers: on a content with
  no quote character they give the same mapping, or both none.
\<close>

lemma parsers_agree_without_quotes:
  assumes "dquote \<notin> set content" and "squote \<notin> set content"
  shows "builder_parse content = extractor_parse content"
proof (cases "frontmatter_block content")
  case None
  then show ?thesis by (simp add: builder_parse_def extractor_parse_def)
next
  case (Some block)
  let ?ls = "py_split_char newline (py_strip block)"
  have "set (py_strip block) \<subseteq> set block" unfolding py_strip_def by (rule set_strip_chars)
  with frontmatter_block_subset [OF Some] have sub: "set (py_strip block) \<subseteq> set content" by auto
  have "\<forall>l\<in>set ?ls. \<forall>md. builder_parse_line md l = extractor_parse_line md l"
  proof (intro ballI allI)
    fix l md assume "l \<in> set ?ls"
    with py_split_char_subset [of newline "py_strip block"] have "set l \<subseteq> set (py_strip block)"
      by blast
    with sub assms have "dquote \<notin> set l" "squote \<notin> set l" by auto
    then show "builder_parse_line md l = extractor_parse_line md l"
      by (rule parse_lines_agree_no_quotes)
  qed
  then have "foldl builder_parse_line [] ?ls = foldl extractor_parse_line [] ?ls"
    by (rule foldl_agree)
  with Some show ?thesis by (simp add: builder_parse_def extractor_parse_def)
qed

text \<open>
  Claim C3, at an input where the two parsers differ. The header line
  \<open>doc_key: "policy.access'\<close> opens with a double quote and closes with a single one.
  The builder keeps the value as it is; the extractor's \<open>strip('"').strip("'")\<close> removes
  both characters. On \<open>doc_key: ""policy.access""\<close> the builder removes one layer of
  quotes and the extractor both. On a content without quote characters the two agree
  (\<open>parsers_agree_without_quotes\<close>).
\<close>

theorem parsers_differ_on_quotes:
  \<open>builder_extract_frontmatter mismatched_doc [] = (Some [(ustr ''doc_key'', Some (ustr ''"policy.access'' @ [squote]))], [])
   \<and> extractor_extract_frontmatter mismatched_doc = Some [(ustr ''doc_key'', Some (ustr ''policy.access''))]
   \<and> builder_extract_frontmatter doubled_doc [] = (Some [(ustr ''doc_key'', Some (ustr ''"policy.access"''))], [])
   \<and> extractor_extract_frontmatter doubled_doc = Some [(ustr ''doc_key'', Some (ustr ''policy.access''))]\<close>
  by code_simp

section \<open>The parsing rule for one line\<close>

lemma builder_unquote_spec:
  assumes "v \<noteq> [dquote]" and "v \<noteq> [squote]"
  shows "builder_unquote v = spec_unquote v"
proof (cases v)
  case Nil
  then show ?thesis
    by (simp add: builder_unquote_def spec_unquote_def py_startswith_def py_endswith_def)
next
  case (Cons c cs)
  show ?thesis
  proof (cases cs rule: rev_cases)
    case Nil
    with Cons assms show ?thesis
      by (simp add: builder_unquote_def spec_unquote_def py_startswith_def py_endswith_def)
  next
    case (snoc ds d)
    with Cons show ?thesis
      by (auto simp: builder_unquote_def spec_unquote_def py_startswith_def py_endswith_def
          dquote_def squote_def)
  qed
qed

lemma builder_parse_line_meets_spec:
  assumes "py_strip (snd (py_split1 colon raw)) \<noteq> [dquote]"
    and "py_strip (snd (py_split1 colon raw)) \<noteq> [squote]"
  shows "builder_parse_line md raw = spec_parse_line md raw"
  unfolding builder_parse_line_direct spec_parse_line_def
  by (simp add: builder_unquote_spec [OF assms])

text \<open>
  Claim C4, at the lines where the code leaves it. The builder's parser follows the rule
  on every line whose trimmed value is not a single quote character
  (\<open>builder_parse_line_meets_spec\<close>); a value that is one quote character alone is
  not wrapped in anything, and both parsers turn it into null. The extractor strips
  every leading and trailing double quote and then every leading and trailing single
  quote: it strips a mismatched pair, and two layers at once.
\<close>

theorem quote_rule_failing_lines:
  \<open>extractor_parse_line [] (ustr ''title: "a'' @ [squote]) = [(ustr ''title'', Some (ustr ''a''))]
   \<and> builder_parse_line [] (ustr ''title: "a'' @ [squote]) = [(ustr ''title'', Some (ustr ''"a'' @ [squote]))]
   \<and> spec_parse_line [] (ustr ''title: "a'' @ [squote]) = [(ustr ''title'', Some (ustr ''"a'' @ [squote]))]
   \<and> extractor_parse_line [] (ustr ''title: ""a""'') = [(ustr ''title'', Some (ustr ''a''))]
   \<and> builder_parse_line [] (ustr ''title: ""a""'') = [(ustr ''title'', Some (ustr ''"a"''))]
   \<and> spec_parse_line [] (ustr ''title: ""a""'') = [(ustr ''title'', Some (ustr ''"a"''))]
   \<and> extractor_parse_line [] (ustr ''title: "'') = [(ustr ''title'', None)]
   \<and> builder_parse_line [] (ustr ''title: "'') = [(ustr ''title'', None)]
   \<and> spec_parse_line [] (ustr ''title: "'') = [(ustr ''title'', Some (ustr ''"''))]\<close>
  by code_simp

end
